theory Spec2Isabelle
  imports Main "HOL-Library.AList" "HOL-Library.Multiset"
begin

section \<open>JavaScript values used by the server\<close>

text \<open>
  A property of a JSON object that may be missing is an \<open>option\<close>: \<open>None\<close> is
  \<^verbatim>\<open>undefined\<close> (or \<^verbatim>\<open>null\<close>). Strings are byte lists in UTF-8. The tests
  \<^verbatim>\<open>!x\<close> and \<^verbatim>\<open>x || y\<close> of the source go through JavaScript truthiness: a missing
  value, the empty string and the number 0 are falsy.
\<close>

definition truthy :: "string option \<Rightarrow> bool" where
  "truthy v = (case v of None \<Rightarrow> False | Some s \<Rightarrow> s \<noteq> [])"

definition truthy_num :: "int option \<Rightarrow> bool" where
  "truthy_num v = (case v of None \<Rightarrow> False | Some n \<Rightarrow> n \<noteq> 0)"

definition js_or :: "string option \<Rightarrow> string option \<Rightarrow> string option" where
  "js_or a b = (if truthy a then a else b)"

section \<open>Messages and the persistence store (server/db.js, schema.sql)\<close>

text \<open>
  The message object handed to \<^verbatim>\<open>saveMessage\<close>. \<open>senderId\<close> and \<open>content\<close> can be
  missing in objects the relay builds, so they are options; the table declares both
  columns NOT NULL.
\<close>

record message =
  mtype :: string
  roomId :: string
  senderId :: "string option"
  timestamp :: int
  content :: "string option"
  fileName :: "string option"
  fileSize :: "int option"
  duration :: "int option"
  thumbnail :: "string option"
  mimeType :: "string option"

text \<open>A stored row: the AUTOINCREMENT id and the inserted columns.\<close>

type_synonym row = "nat \<times> message"

type_synonym database = "row list"

datatype error = StoreError | TypeError

text \<open>
  The constraints of the \<^verbatim>\<open>messages\<close> table in schema.sql:
  \<^verbatim>\<open>type TEXT NOT NULL CHECK(type IN ('text', 'audio', 'video', 'system'))\<close>,
  \<^verbatim>\<open>sender_id TEXT NOT NULL\<close>, \<^verbatim>\<open>content TEXT NOT NULL\<close>.
\<close>

definition schema_ok :: "message \<Rightarrow> bool" where
  "schema_ok m =
     (mtype m \<in> set [''text'', ''audio'', ''video'', ''system'']
      \<and> senderId m \<noteq> None \<and> content m \<noteq> None)"

text \<open>
  \<^verbatim>\<open>saveMessage\<close>: the promise rejects when \<^verbatim>\<open>db.run\<close> reports an error, which is an
  I/O failure of the environment (\<open>io_ok = False\<close>) or a violated constraint; otherwise
  the row is appended and the promise resolves to its id. No row is deleted on the
  paths modelled here, so the next id is one more than the number of rows.
\<close>

definition saveMessage :: "bool \<Rightarrow> message \<Rightarrow> database \<Rightarrow> error + (nat \<times> database)" where
  "saveMessage io_ok m d =
     (if io_ok \<and> schema_ok m
      then Inr (Suc (length d), d @ [(Suc (length d), m)])
      else Inl StoreError)"

text \<open>
  The arguments \<open>page\<close> and \<open>size\<close> of \<^verbatim>\<open>getHistory\<close> are JavaScript numbers. Its
  callers pass integers (constants, or what \<^verbatim>\<open>parseInt\<close> returned), so a number is
  modelled by the integer it holds, and \<^verbatim>\<open>(page - 1) * size\<close> is computed as the double
  arithmetic computes it: the exact result rounded to the nearest double, ties to the
  even mantissa; an integer below 2^53 in magnitude is exact, and a result too large for
  a double is an infinity (\<open>None\<close>).
\<close>

function bit_length :: "int \<Rightarrow> nat" where
  "bit_length a = (if a \<le> 0 then 0 else Suc (bit_length (a div 2)))"
  by pat_completeness auto
termination
  by (relation "measure nat") auto

declare bit_length.simps [simp del]

definition to_double :: "int \<Rightarrow> int option" where
  "to_double n =
     (let a = \<bar>n\<bar> in
      if a < 2 ^ 53 then Some n
      else
        let e = bit_length a - 53;
            q = a div 2 ^ e;
            rest = a mod 2 ^ e;
            half = 2 ^ (e - 1);
            q' = (if rest > half \<or> (rest = half \<and> odd q) then q + 1 else q);
            v = q' * 2 ^ e
        in if v \<ge> 2 ^ 1024 then None else Some (sgn n * v))"

definition js_minus :: "int \<Rightarrow> int \<Rightarrow> int option" where
  "js_minus a b = to_double (a - b)"

definition js_times :: "int \<Rightarrow> int \<Rightarrow> int option" where
  "js_times a b = to_double (a * b)"

text \<open>
  \<^verbatim>\<open>getHistory\<close>:
  \<^verbatim>\<open>SELECT ... FROM messages WHERE room_id = ? ORDER BY timestamp DESC LIMIT ? OFFSET ?\<close>
  with \<^verbatim>\<open>offset = (page - 1) * size\<close>, bound to the two parameters. SQLite wants both
  as 64-bit integers: a number strictly between -2^63 and 2^63 is taken, any other
  (an infinity too) makes the statement fail with a datatype mismatch, and the promise
  rejects. SQLite reads a negative LIMIT as no limit and a negative OFFSET as 0. Rows
  of equal timestamp come newest id first, as the scan of the index on
  (room_id, timestamp) in descending order gives them.
\<close>

definition rows_desc :: "string \<Rightarrow> database \<Rightarrow> row list" where
  "rows_desc r d = rev (sort_key (\<lambda>x. timestamp (snd x)) (filter (\<lambda>x. roomId (snd x) = r) d))"

definition sql_limit :: "int \<Rightarrow> 'a list \<Rightarrow> 'a list" where
  "sql_limit n xs = (if n < 0 then xs else take (nat n) xs)"

definition sql_int :: "int \<Rightarrow> bool" where
  "sql_int n = (- (2 ^ 63) < n \<and> n < 2 ^ 63)"

definition getHistory :: "bool \<Rightarrow> database \<Rightarrow> string \<Rightarrow> int \<Rightarrow> int \<Rightarrow> error + row list" where
  "getHistory io_ok d r page sz =
     (case js_minus page 1 of
        None \<Rightarrow> Inl StoreError
      | Some p \<Rightarrow>
          (case js_times p sz of
             None \<Rightarrow> Inl StoreError
           | Some offset \<Rightarrow>
               if io_ok \<and> sql_int sz \<and> sql_int offset
               then Inr (sql_limit sz (drop (nat offset) (rows_desc r d)))
               else Inl StoreError))"

section \<open>The polling endpoints (server/app.js)\<close>

text \<open>
  An entry of \<^verbatim>\<open>recentMessages\<close>: the message object with its \<^verbatim>\<open>id\<close> property. The
  id is built from the clock and \<^verbatim>\<open>Math.random()\<close>; the environment supplies it.
\<close>

type_synonym entry = "string \<times> message"

record app =
  recentMessages :: "entry list"
  db :: database

definition MAX_MESSAGES :: nat where
  "MAX_MESSAGES = 100"

record send_body =
  b_senderId :: "string option"
  b_content :: "string option"
  b_type :: "string option"

datatype response =
    BadRequest string
  | SendOk entry
  | JoinOk
  | Messages "entry list"

text \<open>\<^verbatim>\<open>Array.prototype.shift\<close>: drops the first element, nothing on an empty array.\<close>

definition shift :: "'a list \<Rightarrow> 'a list" where
  "shift xs = (case xs of [] \<Rightarrow> [] | _ # ys \<Rightarrow> ys)"

text \<open>The database write of both endpoints sits in a try/catch that only logs.\<close>

definition try_save :: "bool \<Rightarrow> message \<Rightarrow> database \<Rightarrow> database" where
  "try_save io_ok m d = (case saveMessage io_ok m d of Inl _ \<Rightarrow> d | Inr (_, d') \<Rightarrow> d')"

text \<open>\<^verbatim>\<open>POST /api/send\<close>.\<close>

definition api_send :: "app \<Rightarrow> send_body \<Rightarrow> int \<Rightarrow> string \<Rightarrow> bool \<Rightarrow> app \<times> response" where
  "api_send s body now ident io_ok =
     (if \<not> truthy (b_senderId body) \<or> \<not> truthy (b_content body)
      then (s, BadRequest ''senderId and content required'')
      else
        let m = \<lparr> mtype = (case b_type body of None \<Rightarrow> ''text'' | Some t \<Rightarrow> t),
                  roomId = ''default_room'',
                  senderId = b_senderId body,
                  timestamp = now,
                  content = b_content body,
                  fileName = None, fileSize = None, duration = None,
                  thumbnail = None, mimeType = None \<rparr>;
            pushed = recentMessages s @ [(ident, m)];
            kept = (if length pushed > MAX_MESSAGES then shift pushed else pushed)
        in (s\<lparr> recentMessages := kept, db := try_save io_ok m (db s) \<rparr>, SendOk (ident, m)))"

text \<open>\<^verbatim>\<open>POST /api/join\<close>.\<close>

definition joined_text :: string where
  "joined_text = [CHR 0x20, CHR 0xE5, CHR 0x8A, CHR 0xA0, CHR 0xE5, CHR 0x85, CHR 0xA5,
     CHR 0xE4, CHR 0xBA, CHR 0x86, CHR 0xE8, CHR 0x81, CHR 0x8A, CHR 0xE5, CHR 0xA4,
     CHR 0xA9, CHR 0xE5, CHR 0xAE, CHR 0xA4]"

definition api_join :: "app \<Rightarrow> string option \<Rightarrow> int \<Rightarrow> string \<Rightarrow> bool \<Rightarrow> app \<times> response" where
  "api_join s sender now ident io_ok =
     (case sender of
        None \<Rightarrow> (s, BadRequest ''senderId required'')
      | Some u \<Rightarrow>
          if u = [] then (s, BadRequest ''senderId required'')
          else
            let m = \<lparr> mtype = ''system'',
                      roomId = ''default_room'',
                      senderId = Some ''system'',
                      timestamp = now,
                      content = Some (u @ joined_text),
                      fileName = None, fileSize = None, duration = None,
                      thumbnail = None, mimeType = None \<rparr>
            in (s\<lparr> recentMessages := recentMessages s @ [(ident, m)],
                    db := try_save io_ok m (db s) \<rparr>, JoinOk))"

text \<open>\<^verbatim>\<open>GET /api/messages\<close>: the entries newer than the cursor.\<close>

definition api_messages :: "app \<Rightarrow> int \<Rightarrow> response" where
  "api_messages s since = Messages (filter (\<lambda>e. timestamp (snd e) > since) (recentMessages s))"

text \<open>A sequence of requests on the pull channel, applied in order.\<close>

datatype request =
    Send send_body int string bool
  | Join "string option" int string bool

fun handle :: "app \<Rightarrow> request \<Rightarrow> app" where
  "handle s (Send body now ident io_ok) = fst (api_send s body now ident io_ok)"
| "handle s (Join sender now ident io_ok) = fst (api_join s sender now ident io_ok)"

definition serve :: "app \<Rightarrow> request list \<Rightarrow> app" where
  "serve s reqs = foldl handle s reqs"

definition app_init :: app where
  "app_init = \<lparr> recentMessages = [], db = [] \<rparr>"

section \<open>The WebSocket relay (server/websocket.js)\<close>

text \<open>
  A connection is the identity of its socket object. \<^verbatim>\<open>rooms\<close> is a JavaScript Map
  from room id to a Set of sockets: both keep insertion order, so the Map is an
  association list and each Set a list without duplicates. \<^verbatim>\<open>clients\<close> maps a socket
  to its info object. The relay state also holds what the library keeps per socket
  (\<^verbatim>\<open>readyState\<close>, the \<^verbatim>\<open>isAlive\<close> property, the server's \<^verbatim>\<open>wss.clients\<close>), the frames
  written to each socket, and the database.
\<close>

type_synonym ws = nat

datatype ready_state = CONNECTING | OPEN | CLOSING | CLOSED

record clientInfo =
  ci_id :: string
  ci_roomId :: "string option"
  ci_userId :: "string option"
  ci_connectedAt :: int

text \<open>A parsed inbound frame, with the properties the handlers read.\<close>

record inbound =
  in_type :: string
  in_roomId :: "string option"
  in_senderId :: "string option"
  in_timestamp :: "int option"
  in_content :: "string option"
  in_fileName :: "string option"
  in_size :: "int option"
  in_duration :: "int option"
  in_thumbnail :: "string option"

datatype frame =
    Welcome string int
  | Joined string string int
  | History "row list"
  | ErrorFrame string int
  | Pong int
  | Echo message

record relay =
  rooms :: "(string \<times> ws list) list"
  clients :: "ws \<rightharpoonup> clientInfo"
  wss_clients :: "ws list"
  readyState :: "ws \<Rightarrow> ready_state"
  isAlive :: "ws \<Rightarrow> bool option"
  wire :: "ws \<Rightarrow> frame list"
  store :: database

definition relay_init :: relay where
  "relay_init = \<lparr> rooms = [], clients = Map.empty, wss_clients = [],
     readyState = (\<lambda>_. CLOSED), isAlive = (\<lambda>_. None), wire = (\<lambda>_. []), store = [] \<rparr>"

text \<open>
  \<^verbatim>\<open>ws.send\<close>: the frame reaches the peer when the socket is open; on a socket that is
  closing or closed the library drops it.
\<close>

definition ws_send :: "relay \<Rightarrow> ws \<Rightarrow> frame \<Rightarrow> relay" where
  "ws_send s w f =
     (if readyState s w = OPEN then s\<lparr> wire := (wire s)(w := wire s w @ [f]) \<rparr> else s)"

definition sendError :: "relay \<Rightarrow> ws \<Rightarrow> string \<Rightarrow> int \<Rightarrow> relay" where
  "sendError s w e now =
     (if readyState s w = OPEN then ws_send s w (ErrorFrame e now) else s)"

text \<open>
  \<^verbatim>\<open>broadcastToRoom\<close>: the \<^verbatim>\<open>forEach\<close> over the room's Set, sending to every member that
  is not excluded and is open; a send that throws is caught and logged.
\<close>

definition deliver :: "message \<Rightarrow> ws option \<Rightarrow> relay \<Rightarrow> ws \<Rightarrow> relay" where
  "deliver m exclude s client =
     (if Some client \<noteq> exclude \<and> readyState s client = OPEN
      then ws_send s client (Echo m) else s)"

definition broadcastToRoom :: "relay \<Rightarrow> string \<Rightarrow> message \<Rightarrow> ws option \<Rightarrow> relay" where
  "broadcastToRoom s r m exclude =
     (case map_of (rooms s) r of
        None \<Rightarrow> s
      | Some room \<Rightarrow> foldl (deliver m exclude) s room)"

text \<open>\<^verbatim>\<open>leaveRoom\<close>.\<close>

definition leaveRoom :: "relay \<Rightarrow> ws \<Rightarrow> string \<Rightarrow> relay" where
  "leaveRoom s w r =
     (let s1 = (case map_of (rooms s) r of
                  None \<Rightarrow> s
                | Some room \<Rightarrow>
                    let room' = removeAll w room
                    in if length room' = 0
                       then s\<lparr> rooms := AList.delete r (rooms s) \<rparr>
                       else s\<lparr> rooms := AList.update r room' (rooms s) \<rparr>)
      in case clients s1 w of
           None \<Rightarrow> s1
         | Some ci \<Rightarrow> s1\<lparr> clients := (clients s1)(w \<mapsto> ci\<lparr> ci_roomId := None \<rparr>) \<rparr>)"

definition left_text :: string where
  "left_text = [CHR 0x20, CHR 0xE7, CHR 0xA6, CHR 0xBB, CHR 0xE5, CHR 0xBC, CHR 0x80,
     CHR 0xE4, CHR 0xBA, CHR 0x86, CHR 0xE8, CHR 0x81, CHR 0x8A, CHR 0xE5, CHR 0xA4,
     CHR 0xA9, CHR 0xE5, CHR 0xAE, CHR 0xA4]"

definition welcome_text :: string where
  "welcome_text = [CHR 0xE8, CHR 0xBF, CHR 0x9E, CHR 0xE6, CHR 0x8E, CHR 0xA5, CHR 0xE6,
     CHR 0x88, CHR 0x90, CHR 0xE5, CHR 0x8A, CHR 0x9F]"

text \<open>The system message objects: only the five properties are set.\<close>

definition system_message :: "string \<Rightarrow> int \<Rightarrow> string option \<Rightarrow> message" where
  "system_message r now c =
     \<lparr> mtype = ''system'', roomId = r, senderId = Some ''system'', timestamp = now,
       content = c, fileName = None, fileSize = None, duration = None,
       thumbnail = None, mimeType = None \<rparr>"

text \<open>A template literal prints a missing value as \<^verbatim>\<open>null\<close>.\<close>

definition template :: "string option \<Rightarrow> string" where
  "template v = (case v of None \<Rightarrow> ''null'' | Some u \<Rightarrow> u)"

text \<open>
  The handlers are async functions. A handler is modelled run to completion, its
  readings of \<^verbatim>\<open>Date.now()\<close> taken at one instant \<open>now\<close>; the outcome of each database
  call it awaits is given by the environment (\<open>hist_ok\<close>, \<open>save_ok\<close>). The second
  component of a result is the exception the handler threw, if any.
\<close>

definition add_member :: "ws \<Rightarrow> string \<Rightarrow> (string \<times> ws list) list \<Rightarrow> (string \<times> ws list) list" where
  "add_member w r al =
     (case map_of al r of
        None \<Rightarrow> AList.update r [w] al
      | Some room \<Rightarrow> AList.update r (if w \<in> set room then room else room @ [w]) al)"

definition handleJoin ::
  "relay \<Rightarrow> ws \<Rightarrow> inbound \<Rightarrow> int \<Rightarrow> bool \<Rightarrow> bool \<Rightarrow> relay \<times> error option" where
  "handleJoin s w m now hist_ok save_ok =
     (if \<not> truthy (in_roomId m) \<or> \<not> truthy (in_senderId m)
      then (sendError s w ''roomId and senderId are required'' now, None)
      else
        case clients s w of
          None \<Rightarrow> (s, Some TypeError)
        | Some ci \<Rightarrow>
            let r = template (in_roomId m);
                u = template (in_senderId m);
                s1 = (if truthy (ci_roomId ci) then leaveRoom s w (template (ci_roomId ci)) else s);
                s2 = s1\<lparr> clients := (clients s1)(w \<mapsto> ci\<lparr> ci_roomId := Some r, ci_userId := Some u \<rparr>) \<rparr>;
                s3 = s2\<lparr> rooms := add_member w r (rooms s2) \<rparr>;
                s4 = ws_send s3 w (Joined r u now);
                s5 = (case getHistory hist_ok (store s4) r 1 50 of
                        Inl _ \<Rightarrow> s4
                      | Inr history \<Rightarrow>
                          if length history > 0 then ws_send s4 w (History (rev history)) else s4);
                joinMessage = system_message r now (Some (u @ joined_text));
                s6 = broadcastToRoom s5 r joinMessage (Some w)
            in (case saveMessage save_ok joinMessage (store s6) of
                  Inl e \<Rightarrow> (s6, Some e)
                | Inr (_, d) \<Rightarrow> (s6\<lparr> store := d \<rparr>, None)))"

definition handleLeave :: "relay \<Rightarrow> ws \<Rightarrow> int \<Rightarrow> bool \<Rightarrow> relay \<times> error option" where
  "handleLeave s w now save_ok =
     (case clients s w of
        None \<Rightarrow> (s, Some TypeError)
      | Some ci \<Rightarrow>
          if truthy (ci_roomId ci) then
            let r = template (ci_roomId ci);
                leaveMessage = system_message r now (Some (template (ci_userId ci) @ left_text));
                s1 = broadcastToRoom s r leaveMessage (Some w)
            in (case saveMessage save_ok leaveMessage (store s1) of
                  Inl e \<Rightarrow> (s1, Some e)
                | Inr (_, d) \<Rightarrow> (leaveRoom (s1\<lparr> store := d \<rparr>) w r, None))
          else (s, None))"

text \<open>\<^verbatim>\<open>message.timestamp || Date.now()\<close>.\<close>

definition timestamp_or :: "int option \<Rightarrow> int \<Rightarrow> int" where
  "timestamp_or v now = (case v of None \<Rightarrow> now | Some t \<Rightarrow> if t \<noteq> 0 then t else now)"

definition normalizedMessage :: "clientInfo \<Rightarrow> inbound \<Rightarrow> int \<Rightarrow> message" where
  "normalizedMessage ci m now =
     \<lparr> mtype = in_type m,
       roomId = template (ci_roomId ci),
       senderId = js_or (ci_userId ci) (in_senderId m),
       timestamp = timestamp_or (in_timestamp m) now,
       content = in_content m,
       fileName = in_fileName m,
       fileSize = in_size m,
       duration = in_duration m,
       thumbnail = in_thumbnail m,
       mimeType = None \<rparr>"

definition handleChatMessage ::
  "relay \<Rightarrow> ws \<Rightarrow> inbound \<Rightarrow> int \<Rightarrow> bool \<Rightarrow> relay \<times> error option" where
  "handleChatMessage s w m now save_ok =
     (case clients s w of
        None \<Rightarrow> (s, Some TypeError)
      | Some ci \<Rightarrow>
          if \<not> truthy (ci_roomId ci)
          then (sendError s w ''Not in a room. Please join a room first.'' now, None)
          else if \<not> truthy (in_content m)
          then (sendError s w ''Message content is required'' now, None)
          else
            (case saveMessage save_ok (normalizedMessage ci m now) (store s) of
               Inl e \<Rightarrow> (s, Some e)
             | Inr (_, d) \<Rightarrow>
                 (broadcastToRoom (s\<lparr> store := d \<rparr>) (template (ci_roomId ci))
                    (normalizedMessage ci m now) None, None)))"

definition handleSystemMessage ::
  "relay \<Rightarrow> ws \<Rightarrow> inbound \<Rightarrow> int \<Rightarrow> bool \<Rightarrow> relay \<times> error option" where
  "handleSystemMessage s w m now save_ok =
     (case clients s w of
        None \<Rightarrow> (s, Some TypeError)
      | Some ci \<Rightarrow>
          if \<not> truthy (ci_roomId ci) then (s, None)
          else
            let r = template (ci_roomId ci);
                systemMessage = system_message r now (in_content m)
            in (case saveMessage save_ok systemMessage (store s) of
                  Inl e \<Rightarrow> (s, Some e)
                | Inr (_, d) \<Rightarrow>
                    (broadcastToRoom (s\<lparr> store := d \<rparr>) r systemMessage None, None)))"

text \<open>\<^verbatim>\<open>clientInfo.userId || 'Unknown user'\<close> in the disconnect handler.\<close>

definition user_or_unknown :: "string option \<Rightarrow> string" where
  "user_or_unknown v = (if truthy v then template v else ''Unknown user'')"

definition handleDisconnect :: "relay \<Rightarrow> ws \<Rightarrow> int \<Rightarrow> relay" where
  "handleDisconnect s w now =
     (case clients s w of
        None \<Rightarrow> s
      | Some ci \<Rightarrow>
          let s1 = (if truthy (ci_roomId ci) then
                      let r = template (ci_roomId ci);
                          leaveMessage = system_message r now
                            (Some (user_or_unknown (ci_userId ci) @ left_text))
                      in leaveRoom (broadcastToRoom s r leaveMessage (Some w)) w r
                    else s)
          in s1\<lparr> clients := (clients s1)(w := None) \<rparr>)"

definition handleMessage ::
  "relay \<Rightarrow> ws \<Rightarrow> inbound \<Rightarrow> int \<Rightarrow> bool \<Rightarrow> bool \<Rightarrow> relay \<times> error option" where
  "handleMessage s w m now hist_ok save_ok =
     (if in_type m = ''join'' then handleJoin s w m now hist_ok save_ok
      else if in_type m = ''leave'' then handleLeave s w now save_ok
      else if in_type m \<in> set [''text'', ''audio'', ''video'']
      then handleChatMessage s w m now save_ok
      else if in_type m = ''system'' then handleSystemMessage s w m now save_ok
      else if in_type m = ''ping'' then (ws_send s w (Pong now), None)
      else (s, None))"

text \<open>
  The socket's \<^verbatim>\<open>message\<close> listener: \<^verbatim>\<open>JSON.parse\<close> and the handler sit in one
  try/catch, whose catch replies with an error frame.
\<close>

datatype payload = Unparsable | Parsed inbound

definition onMessage :: "relay \<Rightarrow> ws \<Rightarrow> payload \<Rightarrow> int \<Rightarrow> bool \<Rightarrow> bool \<Rightarrow> relay" where
  "onMessage s w data now hist_ok save_ok =
     (case data of
        Unparsable \<Rightarrow> sendError s w ''Invalid message format'' now
      | Parsed m \<Rightarrow>
          (case handleMessage s w m now hist_ok save_ok of
             (s', None) \<Rightarrow> s'
           | (s', Some _) \<Rightarrow> sendError s' w ''Invalid message format'' now))"

text \<open>
  The server's \<^verbatim>\<open>connection\<close> listener. The library has opened the socket and added it
  to \<^verbatim>\<open>wss.clients\<close>; a fresh socket object has no \<^verbatim>\<open>isAlive\<close> property. The listener
  registers \<^verbatim>\<open>message\<close>, \<^verbatim>\<open>close\<close> and \<^verbatim>\<open>error\<close> listeners and no other.
\<close>

definition onConnection :: "relay \<Rightarrow> ws \<Rightarrow> string \<Rightarrow> int \<Rightarrow> relay" where
  "onConnection s w clientId now =
     (let s1 = s\<lparr> wss_clients := wss_clients s @ [w],
                  readyState := (readyState s)(w := OPEN),
                  isAlive := (isAlive s)(w := None) \<rparr>;
          s2 = s1\<lparr> clients := (clients s1)(w \<mapsto>
                  \<lparr> ci_id = clientId, ci_roomId = None, ci_userId = None, ci_connectedAt = now \<rparr>) \<rparr>
      in ws_send s2 w (Welcome welcome_text now))"

text \<open>The socket's \<^verbatim>\<open>close\<close> event: the library has closed and dropped the socket.\<close>

definition onClose :: "relay \<Rightarrow> ws \<Rightarrow> int \<Rightarrow> relay" where
  "onClose s w now =
     handleDisconnect (s\<lparr> readyState := (readyState s)(w := CLOSED),
                          wss_clients := removeAll w (wss_clients s) \<rparr>) w now"

text \<open>
  The heartbeat timer. The callback visits every socket of \<^verbatim>\<open>wss.clients\<close>: one whose
  \<^verbatim>\<open>isAlive\<close> is \<^verbatim>\<open>false\<close> is terminated, any other gets \<^verbatim>\<open>isAlive = false\<close> and a
  ping. The \<^verbatim>\<open>close\<close> events of the terminated sockets follow the callback.
\<close>

definition probe :: "relay \<Rightarrow> ws \<Rightarrow> relay" where
  "probe s w =
     (if isAlive s w = Some False
      then s\<lparr> readyState := (readyState s)(w := CLOSING) \<rparr>
      else s\<lparr> isAlive := (isAlive s)(w := Some False) \<rparr>)"

definition heartbeat :: "relay \<Rightarrow> int \<Rightarrow> relay" where
  "heartbeat s now =
     (let terminated = filter (\<lambda>w. isAlive s w = Some False) (wss_clients s);
          s1 = foldl probe s (wss_clients s)
      in foldl (\<lambda>s' w. onClose s' w now) s1 terminated)"

text \<open>
  What the environment can do to the server. \<open>PongReceived\<close> is the peer's answer to
  a ping: the library emits a \<^verbatim>\<open>pong\<close> event on the socket, for which the server has
  registered no listener. \<open>Closing\<close> is a peer starting to close before the
  \<^verbatim>\<open>close\<close> event is delivered. A \<open>Data\<close> event stands for a frame whose handler has
  finished before the next event is handled; frames whose handlers overlap are the
  subject of the last part of this section.
\<close>

datatype event =
    Connection ws string int
  | Data ws payload int bool bool
  | Close ws int
  | SocketError ws int
  | Tick int
  | PongReceived ws
  | Closing ws

fun step :: "relay \<Rightarrow> event \<Rightarrow> relay" where
  "step s (Connection w clientId now) =
     (if w \<in> set (wss_clients s) then s else onConnection s w clientId now)"
| "step s (Data w data now hist_ok save_ok) = onMessage s w data now hist_ok save_ok"
| "step s (Close w now) = onClose s w now"
| "step s (SocketError w now) = handleDisconnect s w now"
| "step s (Tick now) = heartbeat s now"
| "step s (PongReceived w) = s"
| "step s (Closing w) =
     (if readyState s w = OPEN then s\<lparr> readyState := (readyState s)(w := CLOSING) \<rparr> else s)"

definition run :: "relay \<Rightarrow> event list \<Rightarrow> relay" where
  "run s evs = foldl step s evs"

text \<open>Inbound frames with only some properties set.\<close>

definition frame_of :: "string \<Rightarrow> inbound" where
  "frame_of t = \<lparr> in_type = t, in_roomId = None, in_senderId = None, in_timestamp = None,
     in_content = None, in_fileName = None, in_size = None, in_duration = None,
     in_thumbnail = None \<rparr>"

definition join_frame :: "string \<Rightarrow> string \<Rightarrow> inbound" where
  "join_frame r u = (frame_of ''join'')\<lparr> in_roomId := Some r, in_senderId := Some u \<rparr>"

definition text_frame :: "string \<Rightarrow> inbound" where
  "text_frame c = (frame_of ''text'')\<lparr> in_content := Some c \<rparr>"

subsection \<open>Handlers that interleave\<close>

text \<open>
  A handler suspends at each \<^verbatim>\<open>await\<close>, and the \<^verbatim>\<open>message\<close> listener does not wait for
  one handler before it starts the next, so the handlers of two frames can interleave at
  these points. The segments between the awaits: \<^verbatim>\<open>handleJoin\<close> up to the call of
  \<^verbatim>\<open>getHistory\<close>, then from the fetched page up to the call of \<^verbatim>\<open>saveMessage\<close>;
  \<^verbatim>\<open>handleChatMessage\<close> up to the call of \<^verbatim>\<open>saveMessage\<close>, then the broadcast, which
  reads the room of the info object at that moment. A segment ends the handler
  (\<open>Finished\<close>, with the exception thrown, if any) or leaves it waiting.
\<close>

datatype 'a suspension = Finished "error option" | Awaiting 'a

definition join_enter :: "relay \<Rightarrow> ws \<Rightarrow> inbound \<Rightarrow> int \<Rightarrow> relay \<times> (string \<times> string) suspension" where
  "join_enter s w m now =
     (if \<not> truthy (in_roomId m) \<or> \<not> truthy (in_senderId m)
      then (sendError s w ''roomId and senderId are required'' now, Finished None)
      else
        case clients s w of
          None \<Rightarrow> (s, Finished (Some TypeError))
        | Some ci \<Rightarrow>
            let r = template (in_roomId m);
                u = template (in_senderId m);
                s1 = (if truthy (ci_roomId ci) then leaveRoom s w (template (ci_roomId ci)) else s);
                s2 = s1\<lparr> clients := (clients s1)(w \<mapsto> ci\<lparr> ci_roomId := Some r, ci_userId := Some u \<rparr>) \<rparr>;
                s3 = s2\<lparr> rooms := add_member w r (rooms s2) \<rparr>
            in (ws_send s3 w (Joined r u now), Awaiting (r, u)))"

definition join_replay ::
  "relay \<Rightarrow> ws \<Rightarrow> string \<Rightarrow> string \<Rightarrow> error + row list \<Rightarrow> int \<Rightarrow> relay \<times> message" where
  "join_replay s w r u fetched now =
     (let s5 = (case fetched of
                  Inl _ \<Rightarrow> s
                | Inr history \<Rightarrow>
                    if length history > 0 then ws_send s w (History (rev history)) else s);
          joinMessage = system_message r now (Some (u @ joined_text))
      in (broadcastToRoom s5 r joinMessage (Some w), joinMessage))"

text \<open>The INSERT of \<^verbatim>\<open>saveMessage\<close>, on the database as it is when the statement runs.\<close>

definition insert_row :: "bool \<Rightarrow> message \<Rightarrow> relay \<Rightarrow> relay \<times> error option" where
  "insert_row io_ok m s =
     (case saveMessage io_ok m (store s) of
        Inl e \<Rightarrow> (s, Some e)
      | Inr (_, d) \<Rightarrow> (s\<lparr> store := d \<rparr>, None))"

definition chat_enter :: "relay \<Rightarrow> ws \<Rightarrow> inbound \<Rightarrow> int \<Rightarrow> relay \<times> message suspension" where
  "chat_enter s w m now =
     (case clients s w of
        None \<Rightarrow> (s, Finished (Some TypeError))
      | Some ci \<Rightarrow>
          if \<not> truthy (ci_roomId ci)
          then (sendError s w ''Not in a room. Please join a room first.'' now, Finished None)
          else if \<not> truthy (in_content m)
          then (sendError s w ''Message content is required'' now, Finished None)
          else (s, Awaiting (normalizedMessage ci m now)))"

definition chat_echo :: "relay \<Rightarrow> ws \<Rightarrow> message \<Rightarrow> relay" where
  "chat_echo s w nm =
     (case clients s w of
        None \<Rightarrow> s
      | Some ci \<Rightarrow>
          (case ci_roomId ci of
             None \<Rightarrow> s
           | Some r \<Rightarrow> broadcastToRoom s r nm None))"

text \<open>
  Scenario A with the handlers interleaved: one socket, connected, sends the join frame
  for room \<open>r1\<close> as \<open>u1\<close> and then the text frame \<open>hi\<close>; the database calls succeed.
  Each handler advances by moves: a frame arrives and its first segment
  runs, a statement runs in the database, a handler resumes with the result. The text
  frame arrives after the join frame; apart from that the moves come in any order, and
  a move that is not possible in the current state changes nothing. Each resumption
  reads the clock anew.
\<close>

datatype join_phase =
    JNot
  | JQuery string string
  | JFetched string string "error + row list"
  | JInsert message
  | JSaved message "error option"
  | JDone message
  | JEnded

datatype chat_phase =
    CNot
  | CInsert message
  | CSaved message "error option"
  | CDone message
  | CEnded

record scene =
  sys :: relay
  jt :: join_phase
  ct :: chat_phase

datatype move =
    JoinArrives int
  | QueryRuns
  | JoinResumes int
  | JoinInsertRuns
  | JoinReturns int
  | TextArrives int
  | TextInsertRuns
  | TextResumes int

fun micro :: "ws \<Rightarrow> scene \<Rightarrow> move \<Rightarrow> scene" where
  "micro w c (JoinArrives now) =
     (case jt c of
        JNot \<Rightarrow>
          (case join_enter (sys c) w (join_frame ''r1'' ''u1'') now of
             (s1, Awaiting (r, u)) \<Rightarrow> c\<lparr> sys := s1, jt := JQuery r u \<rparr>
           | (s1, Finished None) \<Rightarrow> c\<lparr> sys := s1, jt := JEnded \<rparr>
           | (s1, Finished (Some e)) \<Rightarrow>
               c\<lparr> sys := sendError s1 w ''Invalid message format'' now, jt := JEnded \<rparr>)
      | _ \<Rightarrow> c)"
| "micro w c QueryRuns =
     (case jt c of
        JQuery r u \<Rightarrow> c\<lparr> jt := JFetched r u (getHistory True (store (sys c)) r 1 50) \<rparr>
      | _ \<Rightarrow> c)"
| "micro w c (JoinResumes now) =
     (case jt c of
        JFetched r u fetched \<Rightarrow>
          (case join_replay (sys c) w r u fetched now of
             (s2, joinMessage) \<Rightarrow> c\<lparr> sys := s2, jt := JInsert joinMessage \<rparr>)
      | _ \<Rightarrow> c)"
| "micro w c JoinInsertRuns =
     (case jt c of
        JInsert joinMessage \<Rightarrow>
          (case insert_row True joinMessage (sys c) of
             (s2, e) \<Rightarrow> c\<lparr> sys := s2, jt := JSaved joinMessage e \<rparr>)
      | _ \<Rightarrow> c)"
| "micro w c (JoinReturns now) =
     (case jt c of
        JSaved joinMessage None \<Rightarrow> c\<lparr> jt := JDone joinMessage \<rparr>
      | JSaved joinMessage (Some e) \<Rightarrow>
          c\<lparr> sys := sendError (sys c) w ''Invalid message format'' now, jt := JEnded \<rparr>
      | _ \<Rightarrow> c)"
| "micro w c (TextArrives now) =
     (if jt c = JNot then c
      else
        case ct c of
          CNot \<Rightarrow>
            (case chat_enter (sys c) w (text_frame ''hi'') now of
               (s1, Awaiting nm) \<Rightarrow> c\<lparr> sys := s1, ct := CInsert nm \<rparr>
             | (s1, Finished None) \<Rightarrow> c\<lparr> sys := s1, ct := CEnded \<rparr>
             | (s1, Finished (Some e)) \<Rightarrow>
                 c\<lparr> sys := sendError s1 w ''Invalid message format'' now, ct := CEnded \<rparr>)
        | _ \<Rightarrow> c)"
| "micro w c TextInsertRuns =
     (case ct c of
        CInsert nm \<Rightarrow>
          (case insert_row True nm (sys c) of
             (s2, e) \<Rightarrow> c\<lparr> sys := s2, ct := CSaved nm e \<rparr>)
      | _ \<Rightarrow> c)"
| "micro w c (TextResumes now) =
     (case ct c of
        CSaved nm None \<Rightarrow> c\<lparr> sys := chat_echo (sys c) w nm, ct := CDone nm \<rparr>
      | CSaved nm (Some e) \<Rightarrow>
          c\<lparr> sys := sendError (sys c) w ''Invalid message format'' now, ct := CEnded \<rparr>
      | _ \<Rightarrow> c)"

definition play :: "ws \<Rightarrow> scene \<Rightarrow> move list \<Rightarrow> scene" where
  "play w c ms = foldl (micro w) c ms"

definition scene0 :: "ws \<Rightarrow> string \<Rightarrow> int \<Rightarrow> scene" where
  "scene0 w cid t0 = \<lparr> sys = onConnection relay_init w cid t0, jt = JNot, ct = CNot \<rparr>"

text \<open>What the scenario's theorem speaks about.\<close>

fun is_echo :: "frame \<Rightarrow> bool" where
  "is_echo (Echo m) = True"
| "is_echo f = False"

definition join_row :: "message \<Rightarrow> bool" where
  "join_row jm = (mtype jm = ''system'' \<and> roomId jm = ''r1'' \<and> senderId jm = Some ''system''
     \<and> content jm = Some (''u1'' @ joined_text))"

definition text_row :: "message \<Rightarrow> bool" where
  "text_row nm = (mtype nm = ''text'' \<and> roomId nm = ''r1'' \<and> senderId nm = Some ''u1''
     \<and> content nm = Some ''hi'')"

fun j_ok :: "join_phase \<Rightarrow> bool" where
  "j_ok JNot = True"
| "j_ok (JQuery r u) = (r = ''r1'' \<and> u = ''u1'')"
| "j_ok (JFetched r u fetched) = (r = ''r1'' \<and> u = ''u1'')"
| "j_ok (JInsert jm) = join_row jm"
| "j_ok (JSaved jm e) = (join_row jm \<and> e = None)"
| "j_ok (JDone jm) = join_row jm"
| "j_ok JEnded = False"

fun c_ok :: "chat_phase \<Rightarrow> bool" where
  "c_ok CNot = True"
| "c_ok (CInsert nm) = text_row nm"
| "c_ok (CSaved nm e) = (text_row nm \<and> e = None)"
| "c_ok (CDone nm) = text_row nm"
| "c_ok CEnded = False"

fun jrows :: "join_phase \<Rightarrow> message multiset" where
  "jrows (JSaved jm e) = {#jm#}"
| "jrows (JDone jm) = {#jm#}"
| "jrows t = {#}"

fun crows :: "chat_phase \<Rightarrow> message multiset" where
  "crows (CSaved nm e) = {#nm#}"
| "crows (CDone nm) = {#nm#}"
| "crows t = {#}"

fun echoed :: "chat_phase \<Rightarrow> frame list" where
  "echoed (CDone nm) = [Echo nm]"
| "echoed t = []"

definition rows_of :: "string \<Rightarrow> relay \<Rightarrow> message list" where
  "rows_of r s = map snd (filter (\<lambda>x. roomId (snd x) = r) (store s))"

definition scene_inv :: "ws \<Rightarrow> string \<Rightarrow> int \<Rightarrow> scene \<Rightarrow> bool" where
  "scene_inv w cid t0 c =
     (readyState (sys c) w = OPEN
      \<and> clients (sys c) w = Some \<lparr> ci_id = cid,
            ci_roomId = (if jt c = JNot then None else Some ''r1''),
            ci_userId = (if jt c = JNot then None else Some ''u1''),
            ci_connectedAt = t0 \<rparr>
      \<and> rooms (sys c) = (if jt c = JNot then [] else [(''r1'', [w])])
      \<and> (jt c = JNot \<longrightarrow> ct c = CNot)
      \<and> j_ok (jt c) \<and> c_ok (ct c)
      \<and> filter is_echo (wire (sys c) w) = echoed (ct c)
      \<and> mset (rows_of ''r1'' (sys c)) = jrows (jt c) + crows (ct c))"

text \<open>
  Two schedules: the join handler finishes before the text frame arrives; the text frame
  arrives while the join handler waits for its history page.
\<close>

definition serial :: "move list" where
  "serial = [JoinArrives 20, QueryRuns, JoinResumes 21, JoinInsertRuns, JoinReturns 22,
             TextArrives 30, TextInsertRuns, TextResumes 31]"

definition back_to_back :: "move list" where
  "back_to_back = [JoinArrives 20, TextArrives 21, QueryRuns, TextInsertRuns, JoinResumes 22,
                   JoinInsertRuns, TextResumes 23, JoinReturns 24]"

section \<open>Predicates of the properties\<close>

text \<open>Every room of the registry has a member.\<close>

definition rooms_nonempty :: "relay \<Rightarrow> bool" where
  "rooms_nonempty s = list_all (\<lambda>p. snd p \<noteq> []) (rooms s)"

text \<open>
  The identity a socket supplied in its most recent join frame that passed the
  validation of \<^verbatim>\<open>handleJoin\<close>, read off the events the server has handled.
\<close>

fun join_identity :: "ws \<Rightarrow> event \<Rightarrow> string option" where
  "join_identity w (Data w' (Parsed m) now hist_ok save_ok) =
     (if w' = w \<and> in_type m = ''join'' \<and> truthy (in_roomId m) \<and> truthy (in_senderId m)
      then in_senderId m else None)"
| "join_identity w e = None"

definition last_join :: "ws \<Rightarrow> event list \<Rightarrow> string option" where
  "last_join w evs =
     foldl (\<lambda>acc e. case join_identity w e of None \<Rightarrow> acc | Some u \<Rightarrow> Some u) None evs"

text \<open>
  From \<open>s\<close> to \<open>s'\<close> no socket's binding was made or changed: every info object
  bound to a room in \<open>s'\<close> is the same in \<open>s\<close>.
\<close>

definition keeps :: "relay \<Rightarrow> relay \<Rightarrow> bool" where
  "keeps s s' = (\<forall>w ci. clients s' w = Some ci \<longrightarrow> truthy (ci_roomId ci) \<longrightarrow> clients s w = Some ci)"

text \<open>The frames a handler added to a socket's wire.\<close>

definition new_frames :: "relay \<Rightarrow> relay \<Rightarrow> ws \<Rightarrow> frame list" where
  "new_frames s s' c = drop (length (wire s c)) (wire s' c)"

text \<open>
  Two sockets connect and join room \<open>r1\<close> as \<open>u1\<close> and \<open>u2\<close>; every database call
  succeeds.
\<close>

definition two_in_r1 :: "event list" where
  "two_in_r1 =
     [Connection 0 ''c0'' 10, Data 0 (Parsed (join_frame ''r1'' ''u1'')) 20 True True,
      Connection 1 ''c1'' 30, Data 1 (Parsed (join_frame ''r1'' ''u2'')) 40 True True]"

text \<open>
  Socket 0 has joined room \<open>r1\<close> as \<open>u1\<close> and sent one text frame; socket 1 has
  connected.
\<close>

definition before_second_join :: relay where
  "before_second_join = run relay_init
     [Connection 0 ''c0'' 10, Data 0 (Parsed (join_frame ''r1'' ''u1'')) 20 True True,
      Data 0 (Parsed (text_frame ''hi'')) 30 True True, Connection 1 ''c1'' 35]"

section \<open>The polling buffer\<close>

lemma serve_joins:
  "u \<noteq> [] \<Longrightarrow>
   recentMessages (serve s (replicate n (Join (Some u) t i ok))) =
     recentMessages s @ replicate n (i, system_message ''default_room'' t (Some (u @ joined_text)))"
proof (induction n arbitrary: s)
  case 0
  then show ?case by (simp add: serve_def)
next
  case (Suc n)
  have "serve s (replicate (Suc n) (Join (Some u) t i ok)) =
        serve (handle s (Join (Some u) t i ok)) (replicate n (Join (Some u) t i ok))"
    by (simp add: serve_def)
  then show ?case using Suc
    by (simp add: api_join_def system_message_def Let_def replicate_app_Cons_same)
qed

text \<open>
  C4. The claim: after any sequence of sends and join announcements the buffer holds at
  most 100 entries. The join endpoint pushes without trimming: 101 join announcements
  on an empty buffer leave 101 entries, all of which a poll with cursor 0 returns.
\<close>

theorem join_overflows_buffer:
  "length (recentMessages (serve app_init (replicate 101 (Join (Some ''u1'') 1 ''1_sys'' True)))) = 101
   \<and> \<not> 101 \<le> MAX_MESSAGES
   \<and> (\<exists>es. api_messages (serve app_init (replicate 101 (Join (Some ''u1'') 1 ''1_sys'' True))) 0
            = Messages es \<and> length es = 101)"
  by (simp add: serve_joins app_init_def MAX_MESSAGES_def api_messages_def system_message_def)

text \<open>
  C10. For every request to the send endpoint with a non-empty senderId and content,
  the response is the success response carrying the message, the message is the last
  entry of the poll buffer, and when the database write fails the database is left as
  it was, so the buffer holds a message the store does not.
\<close>

theorem api_send_survives_store_error:
  assumes "truthy (b_senderId body)" and "truthy (b_content body)"
  shows "\<exists>m. snd (api_send s body now ident io_ok) = SendOk (ident, m)
           \<and> senderId m = b_senderId body \<and> content m = b_content body \<and> timestamp m = now
           \<and> (ident, m) \<in> set (recentMessages (fst (api_send s body now ident io_ok)))
           \<and> last (recentMessages (fst (api_send s body now ident io_ok))) = (ident, m)
           \<and> (\<not> io_ok \<longrightarrow> db (fst (api_send s body now ident io_ok)) = db s)"
  using assms
  by (cases "recentMessages s")
     (auto simp: api_send_def Let_def shift_def try_save_def saveMessage_def MAX_MESSAGES_def
           split: list.splits)

theorem api_send_survives_store_error_witness:
  "truthy (Some ''u1'') \<and> truthy (Some ''hi'') \<and>
   (\<exists>m. snd (api_send app_init \<lparr> b_senderId = Some ''u1'', b_content = Some ''hi'', b_type = None \<rparr>
               5 ''5_abc'' False) = SendOk (''5_abc'', m)
     \<and> (''5_abc'', m) \<in> set (recentMessages (fst (api_send app_init
           \<lparr> b_senderId = Some ''u1'', b_content = Some ''hi'', b_type = None \<rparr> 5 ''5_abc'' False)))
     \<and> db (fst (api_send app_init
           \<lparr> b_senderId = Some ''u1'', b_content = Some ''hi'', b_type = None \<rparr> 5 ''5_abc'' False)) = [])"
proof -
  have a: "truthy (b_senderId \<lparr> b_senderId = Some ''u1'', b_content = Some ''hi'', b_type = None \<rparr>)"
    by (simp add: truthy_def)
  have b: "truthy (b_content \<lparr> b_senderId = Some ''u1'', b_content = Some ''hi'', b_type = None \<rparr>)"
    by (simp add: truthy_def)
  show ?thesis
    using api_send_survives_store_error [OF a b, of app_init 5 "''5_abc''" False]
    by (auto simp: truthy_def app_init_def)
qed

section \<open>The history query\<close>

lemma to_double_exact: "\<bar>n\<bar> < 2 ^ 53 \<Longrightarrow> to_double n = Some n"
  by (simp add: to_double_def)

lemma getHistory_first_page:
  "getHistory io_ok d r 1 sz =
     (if io_ok \<and> sql_int sz then Inr (sql_limit sz (rows_desc r d)) else Inl StoreError)"
  by (simp add: getHistory_def js_minus_def js_times_def to_double_exact sql_int_def)

lemma getHistory_exact:
  assumes "\<bar>page - 1\<bar> < 2 ^ 53" and "\<bar>(page - 1) * sz\<bar> < 2 ^ 53"
  shows "getHistory io_ok d r page sz =
     (if io_ok \<and> sql_int sz then Inr (sql_limit sz (drop (nat ((page - 1) * sz)) (rows_desc r d)))
      else Inl StoreError)"
proof -
  have small: "sql_int x" if "\<bar>x\<bar> < 2 ^ 53" for x :: int
    using that by (simp add: sql_int_def abs_less_iff)
  have "js_minus page 1 = Some (page - 1)"
    using assms(1) by (simp add: js_minus_def to_double_exact)
  moreover have "js_times (page - 1) sz = Some ((page - 1) * sz)"
    using assms(2) by (simp add: js_times_def to_double_exact)
  moreover have "sql_int ((page - 1) * sz)" using assms(2) by (rule small)
  ultimately show ?thesis by (simp add: getHistory_def)
qed

lemma sorted_desc_rows: "sorted (map (\<lambda>x. timestamp (snd x)) (rev (rows_desc r d)))"
  by (simp add: rows_desc_def)

lemma rows_desc_set: "set (rows_desc r d) = {x \<in> set d. roomId (snd x) = r}"
  by (auto simp: rows_desc_def)

lemma take_sorted_rev_max:
  assumes "sorted (map f (rev xs))" "x \<in> set (drop n xs)" "y \<in> set (take n xs)"
  shows "f x \<le> f y"
proof -
  have "xs = take n xs @ drop n xs" by simp
  then have "sorted (map f (rev (take n xs @ drop n xs)))" using assms(1) by simp
  then show ?thesis using assms(2,3)
    by (auto simp: sorted_append simp del: append_take_drop_id)
qed

section \<open>What the relay's helpers change\<close>

lemma ws_send_fields [simp]:
  "rooms (ws_send s w f) = rooms s" "clients (ws_send s w f) = clients s"
  "store (ws_send s w f) = store s" "readyState (ws_send s w f) = readyState s"
  "isAlive (ws_send s w f) = isAlive s" "wss_clients (ws_send s w f) = wss_clients s"
  by (simp_all add: ws_send_def)

lemma wire_ws_send:
  "wire (ws_send s w f) c = (if c = w \<and> readyState s w = OPEN then wire s c @ [f] else wire s c)"
  by (simp add: ws_send_def)

lemma sendError_fields [simp]:
  "rooms (sendError s w e t) = rooms s" "clients (sendError s w e t) = clients s"
  "store (sendError s w e t) = store s" "readyState (sendError s w e t) = readyState s"
  "isAlive (sendError s w e t) = isAlive s" "wss_clients (sendError s w e t) = wss_clients s"
  by (simp_all add: sendError_def)

lemma deliver_fields [simp]:
  "rooms (deliver m ex s c) = rooms s" "clients (deliver m ex s c) = clients s"
  "store (deliver m ex s c) = store s" "readyState (deliver m ex s c) = readyState s"
  "isAlive (deliver m ex s c) = isAlive s" "wss_clients (deliver m ex s c) = wss_clients s"
  by (simp_all add: deliver_def)

lemma foldl_deliver_fields [simp]:
  "rooms (foldl (deliver m ex) s cs) = rooms s"
  "clients (foldl (deliver m ex) s cs) = clients s"
  "store (foldl (deliver m ex) s cs) = store s"
  "readyState (foldl (deliver m ex) s cs) = readyState s"
  "isAlive (foldl (deliver m ex) s cs) = isAlive s"
  "wss_clients (foldl (deliver m ex) s cs) = wss_clients s"
  by (induction cs arbitrary: s; simp)+

lemma broadcast_fields [simp]:
  "rooms (broadcastToRoom s r m ex) = rooms s"
  "clients (broadcastToRoom s r m ex) = clients s"
  "store (broadcastToRoom s r m ex) = store s"
  "readyState (broadcastToRoom s r m ex) = readyState s"
  "isAlive (broadcastToRoom s r m ex) = isAlive s"
  "wss_clients (broadcastToRoom s r m ex) = wss_clients s"
  by (simp_all add: broadcastToRoom_def split: option.splits)

text \<open>The members a broadcast reaches.\<close>

lemma wire_foldl_deliver:
  "wire (foldl (deliver m ex) s cs) c =
     wire s c @ replicate (length (filter (\<lambda>x. x = c \<and> Some x \<noteq> ex \<and> readyState s x = OPEN) cs)) (Echo m)"
proof (induction cs arbitrary: s)
  case Nil
  then show ?case by simp
next
  case (Cons a cs)
  show ?case
    by (simp add: Cons.IH) (auto simp: deliver_def wire_ws_send replicate_app_Cons_same)
qed

lemma wire_broadcast:
  "\<exists>k. wire (broadcastToRoom s r m ex) c = wire s c @ replicate k (Echo m)"
proof (cases "map_of (rooms s) r")
  case None
  then have "wire (broadcastToRoom s r m ex) c = wire s c @ replicate 0 (Echo m)"
    by (simp add: broadcastToRoom_def)
  then show ?thesis by blast
next
  case (Some room)
  then show ?thesis
    by (simp add: broadcastToRoom_def wire_foldl_deliver)
qed

lemma wire_broadcast_excluded: "wire (broadcastToRoom s r m (Some w)) w = wire s w"
  by (simp add: broadcastToRoom_def wire_foldl_deliver split: option.splits)

lemma leaveRoom_fields [simp]:
  "store (leaveRoom s w r) = store s" "readyState (leaveRoom s w r) = readyState s"
  "isAlive (leaveRoom s w r) = isAlive s" "wss_clients (leaveRoom s w r) = wss_clients s"
  "wire (leaveRoom s w r) = wire s"
  by (simp_all add: leaveRoom_def Let_def split: option.splits)

lemma clients_leaveRoom:
  "clients (leaveRoom s w r) =
     (case clients s w of None \<Rightarrow> clients s
      | Some ci \<Rightarrow> (clients s)(w \<mapsto> ci\<lparr> ci_roomId := None \<rparr>))"
  by (simp add: leaveRoom_def Let_def split: option.splits)

lemma set_update_subset: "set (AList.update k v al) \<subseteq> insert (k, v) (set al)"
  by (induction al) auto

lemma set_delete_subset: "set (AList.delete k al) \<subseteq> set al"
  by (auto simp: AList.delete_eq)

lemma nonempty_update:
  "list_all (\<lambda>p. snd p \<noteq> []) al \<Longrightarrow> v \<noteq> [] \<Longrightarrow> list_all (\<lambda>p. snd p \<noteq> []) (AList.update k v al)"
  using set_update_subset [of k v al] by (auto simp: list_all_iff)

lemma nonempty_delete:
  "list_all (\<lambda>p. snd p \<noteq> []) al \<Longrightarrow> list_all (\<lambda>p. snd p \<noteq> []) (AList.delete k al)"
  using set_delete_subset [of k al] by (auto simp: list_all_iff)

lemma rooms_nonempty_leaveRoom: "rooms_nonempty s \<Longrightarrow> rooms_nonempty (leaveRoom s w r)"
  by (auto simp: rooms_nonempty_def leaveRoom_def Let_def nonempty_update nonempty_delete
           split: option.splits)

lemma nonempty_add_member:
  "list_all (\<lambda>p. snd p \<noteq> []) al \<Longrightarrow> list_all (\<lambda>p. snd p \<noteq> []) (add_member w r al)"
proof (cases "map_of al r")
  case None
  assume "list_all (\<lambda>p. snd p \<noteq> []) al"
  then show ?thesis using None by (simp add: add_member_def nonempty_update)
next
  case (Some room)
  assume a: "list_all (\<lambda>p. snd p \<noteq> []) al"
  from Some have "(r, room) \<in> set al" by (rule map_of_SomeD)
  with a have "room \<noteq> []" by (auto simp: list_all_iff)
  with a show ?thesis using Some by (simp add: add_member_def nonempty_update)
qed

lemma rooms_nonempty_cong: "rooms_nonempty s \<Longrightarrow> rooms s' = rooms s \<Longrightarrow> rooms_nonempty s'"
  by (simp add: rooms_nonempty_def)

lemma rooms_nonempty_handleJoin:
  "rooms_nonempty s \<Longrightarrow> rooms_nonempty (fst (handleJoin s w m now h k))"
  by (auto simp: handleJoin_def Let_def rooms_nonempty_def nonempty_add_member
                 rooms_nonempty_leaveRoom [unfolded rooms_nonempty_def]
           split: option.splits sum.splits)

lemma rooms_nonempty_handleLeave:
  "rooms_nonempty s \<Longrightarrow> rooms_nonempty (fst (handleLeave s w now k))"
  by (auto simp: handleLeave_def Let_def rooms_nonempty_def
                 rooms_nonempty_leaveRoom [unfolded rooms_nonempty_def]
           split: option.splits sum.splits)

lemma rooms_handleChatMessage [simp]: "rooms (fst (handleChatMessage s w m now k)) = rooms s"
  by (auto simp: handleChatMessage_def split: option.splits sum.splits)

lemma rooms_handleSystemMessage [simp]: "rooms (fst (handleSystemMessage s w m now k)) = rooms s"
  by (auto simp: handleSystemMessage_def Let_def split: option.splits sum.splits)

lemma rooms_nonempty_handleMessage:
  "rooms_nonempty s \<Longrightarrow> rooms_nonempty (fst (handleMessage s w m now h k))"
  by (auto simp: handleMessage_def rooms_nonempty_handleJoin rooms_nonempty_handleLeave
           elim: rooms_nonempty_cong)

lemma rooms_nonempty_onMessage:
  "rooms_nonempty s \<Longrightarrow> rooms_nonempty (onMessage s w p now h k)"
proof (cases p)
  case Unparsable
  assume "rooms_nonempty s"
  then show ?thesis using Unparsable by (auto simp: onMessage_def elim: rooms_nonempty_cong)
next
  case (Parsed m)
  assume "rooms_nonempty s"
  then have "rooms_nonempty (fst (handleMessage s w m now h k))"
    by (rule rooms_nonempty_handleMessage)
  then show ?thesis using Parsed
    by (cases "handleMessage s w m now h k")
       (auto simp: onMessage_def elim: rooms_nonempty_cong split: option.splits)
qed

lemma rooms_nonempty_handleDisconnect:
  "rooms_nonempty s \<Longrightarrow> rooms_nonempty (handleDisconnect s w now)"
  by (auto simp: handleDisconnect_def Let_def rooms_nonempty_def
         intro!: rooms_nonempty_leaveRoom [unfolded rooms_nonempty_def]
           split: option.splits)

lemma rooms_nonempty_onClose: "rooms_nonempty s \<Longrightarrow> rooms_nonempty (onClose s w now)"
  unfolding onClose_def
  by (rule rooms_nonempty_handleDisconnect) (simp add: rooms_nonempty_def)

lemma rooms_foldl_probe [simp]: "rooms (foldl probe s ws) = rooms s"
  by (induction ws arbitrary: s) (simp_all add: probe_def)

lemma rooms_nonempty_foldl_onClose:
  "rooms_nonempty s \<Longrightarrow> rooms_nonempty (foldl (\<lambda>s' w. onClose s' w now) s ws)"
  by (induction ws arbitrary: s) (simp_all add: rooms_nonempty_onClose)

lemma rooms_nonempty_heartbeat: "rooms_nonempty s \<Longrightarrow> rooms_nonempty (heartbeat s now)"
  unfolding heartbeat_def Let_def
  by (rule rooms_nonempty_foldl_onClose) (simp add: rooms_nonempty_def)

lemma rooms_nonempty_step: "rooms_nonempty s \<Longrightarrow> rooms_nonempty (step s e)"
  by (cases e)
     (auto simp: rooms_nonempty_onMessage rooms_nonempty_onClose rooms_nonempty_heartbeat
        rooms_nonempty_handleDisconnect onConnection_def Let_def elim: rooms_nonempty_cong)

lemma rooms_nonempty_run: "rooms_nonempty s \<Longrightarrow> rooms_nonempty (run s evs)"
  unfolding run_def by (induction evs arbitrary: s) (simp_all add: rooms_nonempty_step)

text \<open>The defining equations, for evaluating the relay on concrete events.\<close>

lemmas relay_eval =
  run_def relay_init_def onConnection_def onMessage_def onClose_def handleMessage_def
  handleJoin_def handleLeave_def handleChatMessage_def handleSystemMessage_def
  handleDisconnect_def heartbeat_def probe_def leaveRoom_def
  join_frame_def text_frame_def frame_of_def ws_send_def sendError_def truthy_def template_def
  add_member_def getHistory_first_page sql_int_def rows_desc_def sql_limit_def broadcastToRoom_def
  deliver_def
  saveMessage_def schema_ok_def system_message_def normalizedMessage_def js_or_def
  timestamp_or_def user_or_unknown_def rooms_nonempty_def new_frames_def Let_def

lemma leaveRoom_last_member:
  assumes "map_of (rooms s) r = Some room" and "set room \<subseteq> {w}"
  shows "map_of (rooms (leaveRoom s w r)) r = None \<and> r \<notin> fst ` set (rooms (leaveRoom s w r))"
proof -
  from assms(2) have "removeAll w room = []" by (induction room) auto
  with assms(1) have "rooms (leaveRoom s w r) = AList.delete r (rooms s)"
    by (simp add: leaveRoom_def Let_def split: option.splits)
  then show ?thesis by (simp add: delete_conv' delete_notin_dom)
qed

section \<open>The registry invariant\<close>

text \<open>
  C9. In every state the relay reaches from its initial state, whatever events it has
  handled (connections, joins, leaves, chat frames, disconnects, heartbeats), every
  room id present in the room map has a non-empty member list; and \<^verbatim>\<open>leaveRoom\<close> on a
  room whose only member is the leaving socket deletes the room, so a lookup of that
  room id finds nothing afterwards.
\<close>

theorem registry_rooms_nonempty:
  "rooms_nonempty (run relay_init evs) \<and>
   (map_of (rooms (run relay_init evs)) r = Some room \<and> set room \<subseteq> {w} \<longrightarrow>
      map_of (rooms (leaveRoom (run relay_init evs) w r)) r = None
      \<and> r \<notin> fst ` set (rooms (leaveRoom (run relay_init evs) w r)))"
proof -
  have "rooms_nonempty relay_init" by (simp add: rooms_nonempty_def relay_init_def)
  then have "rooms_nonempty (run relay_init evs)" by (rule rooms_nonempty_run)
  then show ?thesis using leaveRoom_last_member by blast
qed

theorem registry_rooms_nonempty_witness:
  "rooms_nonempty (run relay_init
      [Connection 0 ''c0'' 10, Data 0 (Parsed (join_frame ''r1'' ''u1'')) 20 True True])
   \<and> map_of (rooms (run relay_init
      [Connection 0 ''c0'' 10, Data 0 (Parsed (join_frame ''r1'' ''u1'')) 20 True True])) ''r1'' = Some [0]
   \<and> set [0::nat] \<subseteq> {0}
   \<and> map_of (rooms (leaveRoom (run relay_init
      [Connection 0 ''c0'' 10, Data 0 (Parsed (join_frame ''r1'' ''u1'')) 20 True True]) 0 ''r1'')) ''r1'' = None"
proof -
  have h: "map_of (rooms (run relay_init
      [Connection 0 ''c0'' 10, Data 0 (Parsed (join_frame ''r1'' ''u1'')) 20 True True])) ''r1'' = Some [0]"
    by (simp add: relay_eval)
  show ?thesis
    using h registry_rooms_nonempty [of "[Connection 0 ''c0'' 10, Data 0 (Parsed (join_frame ''r1'' ''u1'')) 20 True True]" "''r1''" "[0]" 0]
    by simp
qed

section \<open>History replay\<close>

lemma sorted_rev_take_drop:
  assumes "sorted (map f (rev xs))"
  shows "sorted (map f (rev (take n (drop k xs))))"
proof -
  have "map f (rev (take n (drop k xs))) =
        drop (length (drop k xs) - n) (take (length xs - k) (map f (rev xs)))"
    by (simp add: rev_take rev_drop drop_map take_map)
  then show ?thesis using assms by (simp del: length_drop)
qed

lemma sorted_rev_sql_limit:
  "sorted (map (\<lambda>x. timestamp (snd x)) (rev (sql_limit sz (rows_desc r d))))"
proof (cases "sz < 0")
  case True
  then show ?thesis by (simp add: sql_limit_def sorted_desc_rows)
next
  case False
  have "sorted (map (\<lambda>x. timestamp (snd x)) (rev (take (nat sz) (drop 0 (rows_desc r d)))))"
    by (rule sorted_rev_take_drop) (rule sorted_desc_rows)
  then show ?thesis using False by (simp add: sql_limit_def)
qed

lemma sql_limit_recent:
  assumes "x \<in> set (rows_desc r d)" and "x \<notin> set (sql_limit sz (rows_desc r d))"
    and "y \<in> set (sql_limit sz (rows_desc r d))"
  shows "timestamp (snd x) \<le> timestamp (snd y)"
proof (cases "sz < 0")
  case True
  then show ?thesis using assms by (simp add: sql_limit_def)
next
  case False
  then have p: "sql_limit sz (rows_desc r d) = take (nat sz) (rows_desc r d)"
    by (simp add: sql_limit_def)
  from assms(1) have "x \<in> set (take (nat sz) (rows_desc r d)) \<union> set (drop (nat sz) (rows_desc r d))"
    by (simp only: set_append [symmetric] append_take_drop_id)
  with assms(2) p have "x \<in> set (drop (nat sz) (rows_desc r d))" by simp
  moreover from assms(3) p have "y \<in> set (take (nat sz) (rows_desc r d))" by simp
  ultimately show ?thesis
    using take_sorted_rev_max [OF sorted_desc_rows] by blast
qed

lemma length_sql_limit:
  "length (sql_limit sz xs) = (if sz < 0 then length xs else min (nat sz) (length xs))"
  by (simp add: sql_limit_def min.commute)

lemma set_sql_limit: "set (sql_limit sz xs) \<subseteq> set xs"
  by (auto simp: sql_limit_def dest: in_set_takeD)

lemma wire_handleJoin:
  "\<exists>fs. wire (fst (handleJoin s w m now hist_ok save_ok)) c = wire s c @ fs
     \<and> (\<forall>hs. History hs \<in> set fs \<longrightarrow>
           (\<exists>h. getHistory hist_ok (store s) (template (in_roomId m)) 1 50 = Inr h \<and> hs = rev h))"
proof -
  let ?r = "template (in_roomId m)" and ?u = "template (in_senderId m)"
  let ?jm = "system_message ?r now (Some (?u @ joined_text))"
  show ?thesis
  proof (cases "\<not> truthy (in_roomId m) \<or> \<not> truthy (in_senderId m)")
    case True
    then show ?thesis by (auto simp: handleJoin_def sendError_def wire_ws_send)
  next
    case valid: False
    show ?thesis
    proof (cases "clients s w")
      case None
      then show ?thesis using valid by (simp add: handleJoin_def)
    next
      case (Some ci)
      define s1 where "s1 = (if truthy (ci_roomId ci) then leaveRoom s w (template (ci_roomId ci)) else s)"
      define s3 where "s3 = s1\<lparr> clients := (clients s1)(w \<mapsto> ci\<lparr> ci_roomId := Some ?r, ci_userId := Some ?u \<rparr>),
                                rooms := add_member w ?r (rooms s1) \<rparr>"
      define s4 where "s4 = ws_send s3 w (Joined ?r ?u now)"
      define s5 where "s5 = (case getHistory hist_ok (store s4) ?r 1 50 of
                        Inl _ \<Rightarrow> s4
                      | Inr history \<Rightarrow>
                          if length history > 0 then ws_send s4 w (History (rev history)) else s4)"
      define s6 where "s6 = broadcastToRoom s5 ?r ?jm (Some w)"
      have w3: "wire s3 = wire s" and st3: "store s3 = store s"
        by (simp_all add: s3_def s1_def)
      have st4: "store s4 = store s" by (simp add: s4_def st3)
      obtain f4 where w4: "wire s4 c = wire s c @ f4" "\<forall>hs. History hs \<notin> set f4"
        by (cases "c = w \<and> readyState s3 w = OPEN") (auto simp: s4_def wire_ws_send w3)
      have "\<exists>f5. wire s5 c = wire s4 c @ f5 \<and>
        (\<forall>hs. History hs \<in> set f5 \<longrightarrow> (\<exists>h. getHistory hist_ok (store s) ?r 1 50 = Inr h \<and> hs = rev h))"
      proof (cases "getHistory hist_ok (store s) ?r 1 50")
        case (Inl e)
        then have "wire s5 c = wire s4 c @ []" by (simp add: s5_def st4)
        then show ?thesis by fastforce
      next
        case (Inr h)
        show ?thesis
        proof (cases "h \<noteq> [] \<and> c = w \<and> readyState s4 w = OPEN")
          case True
          then have "wire s5 c = wire s4 c @ [History (rev h)]"
            using Inr by (simp add: s5_def st4 wire_ws_send)
          then show ?thesis using Inr by fastforce
        next
          case False
          then have "wire s5 c = wire s4 c @ []"
            using Inr by (auto simp: s5_def st4 wire_ws_send)
          then show ?thesis by fastforce
        qed
      qed
      then obtain f5 where w5: "wire s5 c = wire s4 c @ f5"
        "\<forall>hs. History hs \<in> set f5 \<longrightarrow> (\<exists>h. getHistory hist_ok (store s) ?r 1 50 = Inr h \<and> hs = rev h)"
        by blast
      obtain k where w6: "wire s6 c = wire s5 c @ replicate k (Echo ?jm)"
        unfolding s6_def using wire_broadcast by blast
      have res: "wire (fst (handleJoin s w m now hist_ok save_ok)) = wire s6"
        using valid Some
        by (auto simp: handleJoin_def Let_def s6_def s5_def s4_def s3_def s1_def
                 split: sum.splits)
      have "wire s6 c = wire s c @ (f4 @ f5 @ replicate k (Echo ?jm))"
        by (simp add: w6 w5 w4)
      moreover have "\<forall>hs. History hs \<in> set (f4 @ f5 @ replicate k (Echo ?jm)) \<longrightarrow>
           (\<exists>h. getHistory hist_ok (store s) ?r 1 50 = Inr h \<and> hs = rev h)"
        using w4(2) w5(2) by auto
      ultimately show ?thesis unfolding res by blast
    qed
  qed
qed

text \<open>The frames \<^verbatim>\<open>handleJoin\<close> writes to the joining socket.\<close>

lemma wire_handleJoin_self:
  assumes "truthy (in_roomId m)" and "truthy (in_senderId m)"
    and "clients s w = Some ci" and "readyState s w = OPEN"
  shows "wire (fst (handleJoin s w m now hist_ok save_ok)) w =
     wire s w @ Joined (template (in_roomId m)) (template (in_senderId m)) now #
       (case getHistory hist_ok (store s) (template (in_roomId m)) 1 50 of
          Inl _ \<Rightarrow> []
        | Inr h \<Rightarrow> if h \<noteq> [] then [History (rev h)] else [])"
proof -
  let ?r = "template (in_roomId m)" and ?u = "template (in_senderId m)"
  let ?jm = "system_message ?r now (Some (?u @ joined_text))"
  define s1 where "s1 = (if truthy (ci_roomId ci) then leaveRoom s w (template (ci_roomId ci)) else s)"
  define s3 where "s3 = s1\<lparr> clients := (clients s1)(w \<mapsto> ci\<lparr> ci_roomId := Some ?r, ci_userId := Some ?u \<rparr>),
                            rooms := add_member w ?r (rooms s1) \<rparr>"
  define s4 where "s4 = ws_send s3 w (Joined ?r ?u now)"
  define s5 where "s5 = (case getHistory hist_ok (store s4) ?r 1 50 of
                    Inl _ \<Rightarrow> s4
                  | Inr history \<Rightarrow>
                      if length history > 0 then ws_send s4 w (History (rev history)) else s4)"
  define s6 where "s6 = broadcastToRoom s5 ?r ?jm (Some w)"
  have w3: "wire s3 = wire s" and st3: "store s3 = store s" and r3: "readyState s3 = readyState s"
    by (simp_all add: s3_def s1_def)
  have st4: "store s4 = store s" and r4: "readyState s4 = readyState s"
    by (simp_all add: s4_def st3 r3)
  have w4: "wire s4 w = wire s w @ [Joined ?r ?u now]"
    using assms(4) by (simp add: s4_def wire_ws_send w3 r3)
  have w5: "wire s5 w = wire s4 w @
       (case getHistory hist_ok (store s) ?r 1 50 of
          Inl _ \<Rightarrow> []
        | Inr h \<Rightarrow> if h \<noteq> [] then [History (rev h)] else [])"
    using assms(4) by (cases "getHistory hist_ok (store s) ?r 1 50")
      (simp_all add: s5_def st4 wire_ws_send r4)
  have w6: "wire s6 w = wire s5 w"
    unfolding s6_def by (rule wire_broadcast_excluded)
  have res: "wire (fst (handleJoin s w m now hist_ok save_ok)) = wire s6"
    using assms(1,2,3)
    by (auto simp: handleJoin_def Let_def s6_def s5_def s4_def s3_def s1_def
             split: sum.splits)
  show ?thesis by (simp add: res w6 w5 w4)
qed

text \<open>The history payload of the second segment of \<^verbatim>\<open>handleJoin\<close>.\<close>

lemma wire_join_replay_self:
  assumes "readyState s w = OPEN"
  shows "wire (fst (join_replay s w r u fetched now)) w =
     wire s w @ (case fetched of Inl _ \<Rightarrow> [] | Inr h \<Rightarrow> if h \<noteq> [] then [History (rev h)] else [])"
  using assms
  by (cases fetched) (simp_all add: join_replay_def Let_def wire_broadcast_excluded wire_ws_send)

text \<open>
  C8. The first page of \<^verbatim>\<open>getHistory\<close>, for every size: the query is accepted exactly when
  the size is a 64-bit integer for SQLite, and then returns rows of the room only, most
  recent first (the reversed page is in non-decreasing timestamp order, and no row of the
  room left out is newer than a row of the page), at most \<open>sz\<close> of them for a size that
  is a count (a negative size is read as no limit). Page \<open>page\<close> skips the first
  \<open>(page - 1) * sz\<close> rows of that order, where that product is exact. A join that passes
  the validation, from a known and open socket, is answered with the joined frame and
  then, when the query succeeds and the first page of 50 of the joined room is not empty,
  with one history payload, which is that page reversed and so in non-decreasing
  timestamp order; no other history payload is written to any socket. When other
  handlers run while the join handler waits for its page, the payload its second segment
  writes is the reversed first page of 50 of the database as the query found it.
\<close>

theorem history_page_chronological:
  "getHistory True d r 1 sz =
     (if sql_int sz then Inr (sql_limit sz (rows_desc r d)) else Inl StoreError)
   \<and> set (rows_desc r d) = {x \<in> set d. roomId (snd x) = r}
   \<and> sorted (map (\<lambda>x. timestamp (snd x)) (rev (rows_desc r d)))
   \<and> set (sql_limit sz (rows_desc r d)) \<subseteq> set (rows_desc r d)
   \<and> length (sql_limit sz (rows_desc r d)) =
       (if sz < 0 then length (rows_desc r d) else min (nat sz) (length (rows_desc r d)))
   \<and> sorted (map (\<lambda>x. timestamp (snd x)) (rev (sql_limit sz (rows_desc r d))))
   \<and> (\<forall>x\<in>set (rows_desc r d). x \<notin> set (sql_limit sz (rows_desc r d)) \<longrightarrow>
         (\<forall>y\<in>set (sql_limit sz (rows_desc r d)). timestamp (snd x) \<le> timestamp (snd y)))
   \<and> (\<bar>page - 1\<bar> < 2 ^ 53 \<and> \<bar>(page - 1) * sz\<bar> < 2 ^ 53 \<and> sql_int sz \<longrightarrow>
         getHistory True d r page sz =
           Inr (sql_limit sz (drop (nat ((page - 1) * sz)) (rows_desc r d))))
   \<and> (truthy (in_roomId m) \<and> truthy (in_senderId m) \<and> clients s w \<noteq> None
        \<and> readyState s w = OPEN \<longrightarrow>
         getHistory True (store s) (template (in_roomId m)) 1 50 =
           Inr (take 50 (rows_desc (template (in_roomId m)) (store s)))
         \<and> new_frames s (fst (handleJoin s w m now hist_ok save_ok)) w =
             Joined (template (in_roomId m)) (template (in_senderId m)) now #
               (if hist_ok \<and> take 50 (rows_desc (template (in_roomId m)) (store s)) \<noteq> []
                then [History (rev (take 50 (rows_desc (template (in_roomId m)) (store s))))]
                else [])
         \<and> sorted (map (\<lambda>x. timestamp (snd x))
               (rev (take 50 (rows_desc (template (in_roomId m)) (store s))))))
   \<and> (\<forall>c hs. History hs \<in> set (new_frames s (fst (handleJoin s w m now hist_ok save_ok)) c) \<longrightarrow>
         sorted (map (\<lambda>x. timestamp (snd x)) hs))
   \<and> (readyState s w = OPEN \<longrightarrow>
         new_frames s (fst (join_replay s w r u (getHistory hist_ok d r 1 50) now)) w =
           (if hist_ok \<and> take 50 (rows_desc r d) \<noteq> []
            then [History (rev (take 50 (rows_desc r d)))] else []))"
proof -
  let ?ts = "\<lambda>x. timestamp (snd x)"
  have first: "getHistory io_ok dd rr 1 50 =
      (if io_ok then Inr (take 50 (rows_desc rr dd)) else Inl StoreError)" for io_ok dd rr
    by (simp add: getHistory_first_page sql_int_def sql_limit_def)
  have sorted50: "sorted (map ?ts (rev (take 50 (rows_desc rr dd))))" for rr dd
    using sorted_rev_sql_limit [of 50 rr dd] by (simp add: sql_limit_def)
  have general: "\<bar>page - 1\<bar> < 2 ^ 53 \<and> \<bar>(page - 1) * sz\<bar> < 2 ^ 53 \<and> sql_int sz \<longrightarrow>
         getHistory True d r page sz =
           Inr (sql_limit sz (drop (nat ((page - 1) * sz)) (rows_desc r d)))"
    by (simp add: getHistory_exact)
  have relay: "truthy (in_roomId m) \<and> truthy (in_senderId m) \<and> clients s w \<noteq> None
        \<and> readyState s w = OPEN \<longrightarrow>
         new_frames s (fst (handleJoin s w m now hist_ok save_ok)) w =
             Joined (template (in_roomId m)) (template (in_senderId m)) now #
               (if hist_ok \<and> take 50 (rows_desc (template (in_roomId m)) (store s)) \<noteq> []
                then [History (rev (take 50 (rows_desc (template (in_roomId m)) (store s))))]
                else [])"
  proof (intro impI, elim conjE)
    assume a: "truthy (in_roomId m)" "truthy (in_senderId m)" "clients s w \<noteq> None"
      "readyState s w = OPEN"
    from a(3) obtain ci where ci: "clients s w = Some ci" by blast
    show "new_frames s (fst (handleJoin s w m now hist_ok save_ok)) w =
             Joined (template (in_roomId m)) (template (in_senderId m)) now #
               (if hist_ok \<and> take 50 (rows_desc (template (in_roomId m)) (store s)) \<noteq> []
                then [History (rev (take 50 (rows_desc (template (in_roomId m)) (store s))))]
                else [])"
      unfolding new_frames_def wire_handleJoin_self [OF a(1,2) ci a(4)]
      by (simp add: first)
  qed
  have payload: "\<forall>c hs. History hs \<in> set (new_frames s (fst (handleJoin s w m now hist_ok save_ok)) c) \<longrightarrow>
           sorted (map ?ts hs)"
  proof (intro allI impI)
    fix c hs
    assume a: "History hs \<in> set (new_frames s (fst (handleJoin s w m now hist_ok save_ok)) c)"
    obtain fs where fs: "wire (fst (handleJoin s w m now hist_ok save_ok)) c = wire s c @ fs"
      "\<forall>hs. History hs \<in> set fs \<longrightarrow>
           (\<exists>h. getHistory hist_ok (store s) (template (in_roomId m)) 1 50 = Inr h \<and> hs = rev h)"
      using wire_handleJoin by blast
    from a fs(1) have "History hs \<in> set fs" by (simp add: new_frames_def)
    with fs(2) obtain h where h: "getHistory hist_ok (store s) (template (in_roomId m)) 1 50 = Inr h" "hs = rev h"
      by blast
    from h(1) have "h = take 50 (rows_desc (template (in_roomId m)) (store s))"
      by (auto simp: first split: if_splits)
    then show "sorted (map ?ts hs)" using sorted50 h(2) by simp
  qed
  have c1: "getHistory True d r 1 sz =
     (if sql_int sz then Inr (sql_limit sz (rows_desc r d)) else Inl StoreError)"
    by (simp add: getHistory_first_page)
  have c2: "set (rows_desc r d) = {x \<in> set d. roomId (snd x) = r}"
    by (rule rows_desc_set)
  have c3: "sorted (map ?ts (rev (rows_desc r d)))"
    by (rule sorted_desc_rows)
  have c4: "set (sql_limit sz (rows_desc r d)) \<subseteq> set (rows_desc r d)"
    by (rule set_sql_limit)
  have c5: "length (sql_limit sz (rows_desc r d)) =
       (if sz < 0 then length (rows_desc r d) else min (nat sz) (length (rows_desc r d)))"
    by (rule length_sql_limit)
  have c6: "sorted (map ?ts (rev (sql_limit sz (rows_desc r d))))"
    by (rule sorted_rev_sql_limit)
  have c7: "\<forall>x\<in>set (rows_desc r d). x \<notin> set (sql_limit sz (rows_desc r d)) \<longrightarrow>
         (\<forall>y\<in>set (sql_limit sz (rows_desc r d)). ?ts x \<le> ?ts y)"
    using sql_limit_recent by blast
  have c9: "truthy (in_roomId m) \<and> truthy (in_senderId m) \<and> clients s w \<noteq> None
        \<and> readyState s w = OPEN \<longrightarrow>
         getHistory True (store s) (template (in_roomId m)) 1 50 =
           Inr (take 50 (rows_desc (template (in_roomId m)) (store s)))
         \<and> new_frames s (fst (handleJoin s w m now hist_ok save_ok)) w =
             Joined (template (in_roomId m)) (template (in_senderId m)) now #
               (if hist_ok \<and> take 50 (rows_desc (template (in_roomId m)) (store s)) \<noteq> []
                then [History (rev (take 50 (rows_desc (template (in_roomId m)) (store s))))]
                else [])
         \<and> sorted (map ?ts (rev (take 50 (rows_desc (template (in_roomId m)) (store s)))))"
    using relay first [of True "store s" "template (in_roomId m)"]
      sorted50 [of "template (in_roomId m)" "store s"]
    by simp
  have c10: "readyState s w = OPEN \<longrightarrow>
         new_frames s (fst (join_replay s w r u (getHistory hist_ok d r 1 50) now)) w =
           (if hist_ok \<and> take 50 (rows_desc r d) \<noteq> []
            then [History (rev (take 50 (rows_desc r d)))] else [])"
    by (simp add: new_frames_def wire_join_replay_self first)
  show ?thesis
    by (intro conjI) (rule c1, rule c2, rule c3, rule c4, rule c5, rule c6, rule c7,
      rule general, rule c9, rule payload, rule c10)
qed


theorem history_page_chronological_witness:
  "truthy (in_roomId (join_frame ''r1'' ''u2'')) \<and> truthy (in_senderId (join_frame ''r1'' ''u2''))
   \<and> clients before_second_join 1 \<noteq> None \<and> readyState before_second_join 1 = OPEN
   \<and> new_frames before_second_join
        (fst (handleJoin before_second_join 1 (join_frame ''r1'' ''u2'') 40 True True)) 1
       = [Joined ''r1'' ''u2'' 40,
          History [(1, system_message ''r1'' 20 (Some (''u1'' @ joined_text))),
                   (2, \<lparr> mtype = ''text'', roomId = ''r1'', senderId = Some ''u1'', timestamp = 30,
                         content = Some ''hi'', fileName = None, fileSize = None, duration = None,
                         thumbnail = None, mimeType = None \<rparr>)]]
   \<and> \<bar>2 - 1 :: int\<bar> < 2 ^ 53 \<and> \<bar>(2 - 1) * 1 :: int\<bar> < 2 ^ 53 \<and> sql_int 1
   \<and> getHistory True (store before_second_join) ''r1'' 2 1
       = Inr [(1, system_message ''r1'' 20 (Some (''u1'' @ joined_text)))]"
proof -
  have h1: "truthy (in_roomId (join_frame ''r1'' ''u2''))"
    and h2: "truthy (in_senderId (join_frame ''r1'' ''u2''))"
    by (simp_all add: truthy_def join_frame_def frame_of_def)
  have h3: "clients before_second_join 1 \<noteq> None" by code_simp
  have h4: "readyState before_second_join 1 = OPEN" by code_simp
  have h5: "\<bar>2 - 1 :: int\<bar> < 2 ^ 53 \<and> \<bar>(2 - 1) * 1 :: int\<bar> < 2 ^ 53 \<and> sql_int 1"
    by (simp add: sql_int_def)
  have e1: "take 50 (rows_desc ''r1'' (store before_second_join)) =
      [(2, \<lparr> mtype = ''text'', roomId = ''r1'', senderId = Some ''u1'', timestamp = 30,
             content = Some ''hi'', fileName = None, fileSize = None, duration = None,
             thumbnail = None, mimeType = None \<rparr>),
       (1, system_message ''r1'' 20 (Some (''u1'' @ joined_text)))]"
    by code_simp
  have e2: "sql_limit 1 (drop (nat ((2 - 1) * 1)) (rows_desc ''r1'' (store before_second_join))) =
      [(1, system_message ''r1'' 20 (Some (''u1'' @ joined_text)))]"
    by code_simp
  have t: "template (in_roomId (join_frame ''r1'' ''u2'')) = ''r1''"
    "template (in_senderId (join_frame ''r1'' ''u2'')) = ''u2''"
    by (simp_all add: template_def join_frame_def frame_of_def)
  note inst = history_page_chronological [where s = before_second_join and w = 1
      and m = "join_frame ''r1'' ''u2''" and now = 40 and hist_ok = True and save_ok = True
      and d = "store before_second_join" and r = "''r1''" and page = 2 and sz = 1]
  from inst h1 h2 h3 h4 have
    "new_frames before_second_join
        (fst (handleJoin before_second_join 1 (join_frame ''r1'' ''u2'') 40 True True)) 1
       = Joined ''r1'' ''u2'' 40 #
          (if True \<and> take 50 (rows_desc ''r1'' (store before_second_join)) \<noteq> []
           then [History (rev (take 50 (rows_desc ''r1'' (store before_second_join))))] else [])"
    unfolding t by blast
  then have a: "new_frames before_second_join
        (fst (handleJoin before_second_join 1 (join_frame ''r1'' ''u2'') 40 True True)) 1
       = [Joined ''r1'' ''u2'' 40,
          History [(1, system_message ''r1'' 20 (Some (''u1'' @ joined_text))),
                   (2, \<lparr> mtype = ''text'', roomId = ''r1'', senderId = Some ''u1'', timestamp = 30,
                         content = Some ''hi'', fileName = None, fileSize = None, duration = None,
                         thumbnail = None, mimeType = None \<rparr>)]]"
    unfolding e1 by simp
  from inst h5 have "getHistory True (store before_second_join) ''r1'' 2 1 =
      Inr (sql_limit 1 (drop (nat ((2 - 1) * 1)) (rows_desc ''r1'' (store before_second_join))))"
    by blast
  then have b: "getHistory True (store before_second_join) ''r1'' 2 1
       = Inr [(1, system_message ''r1'' 20 (Some (''u1'' @ joined_text)))]"
    unfolding e2 .
  from h1 h2 h3 h4 h5 a b show ?thesis by blast
qed

section \<open>The identity bound to a connection\<close>

lemma truthy_None [simp]: "\<not> truthy None"
  by (simp add: truthy_def)

lemma keeps_same: "clients s' = clients s \<Longrightarrow> keeps s s'"
  by (simp add: keeps_def)

lemma keeps_trans: "keeps s s' \<Longrightarrow> keeps s' s'' \<Longrightarrow> keeps s s''"
  by (simp add: keeps_def)

lemma keeps_leaveRoom: "keeps s (leaveRoom s w r)"
  by (auto simp: keeps_def clients_leaveRoom truthy_def split: option.splits if_splits)

lemma clients_handleLeave:
  "clients (fst (handleLeave s w now k)) = clients s \<or>
   (\<exists>s1 r. clients s1 = clients s \<and> fst (handleLeave s w now k) = leaveRoom s1 w r)"
proof (cases "clients s w")
  case None
  then show ?thesis by (simp add: handleLeave_def)
next
  case (Some ci)
  let ?r = "template (ci_roomId ci)"
  let ?lm = "system_message ?r now (Some (template (ci_userId ci) @ left_text))"
  show ?thesis
  proof (cases "truthy (ci_roomId ci)")
    case False
    then show ?thesis using Some by (simp add: handleLeave_def)
  next
    case True
    show ?thesis
    proof (cases "saveMessage k ?lm (store s)")
      case (Inl e)
      then show ?thesis using Some True by (simp add: handleLeave_def Let_def)
    next
      case (Inr p)
      obtain i d where p: "p = (i, d)" by (cases p)
      have "fst (handleLeave s w now k) =
              leaveRoom ((broadcastToRoom s ?r ?lm (Some w))\<lparr> store := d \<rparr>) w ?r"
        using Some True Inr p by (simp add: handleLeave_def Let_def)
      moreover have "clients ((broadcastToRoom s ?r ?lm (Some w))\<lparr> store := d \<rparr>) = clients s"
        by simp
      ultimately show ?thesis by blast
    qed
  qed
qed

lemma keeps_handleLeave: "keeps s (fst (handleLeave s w now k))"
  using clients_handleLeave [of s w now k]
proof
  assume "clients (fst (handleLeave s w now k)) = clients s"
  then show ?thesis by (rule keeps_same)
next
  assume "\<exists>s1 r. clients s1 = clients s \<and> fst (handleLeave s w now k) = leaveRoom s1 w r"
  then obtain s1 r where h: "clients s1 = clients s" "fst (handleLeave s w now k) = leaveRoom s1 w r"
    by blast
  from h(1) have "keeps s s1" by (rule keeps_same)
  then show ?thesis unfolding h(2) by (rule keeps_trans) (rule keeps_leaveRoom)
qed

lemma clients_handleChatMessage [simp]: "clients (fst (handleChatMessage s w m now k)) = clients s"
  by (auto simp: handleChatMessage_def split: option.splits sum.splits)

lemma clients_handleSystemMessage [simp]: "clients (fst (handleSystemMessage s w m now k)) = clients s"
  by (auto simp: handleSystemMessage_def Let_def split: option.splits sum.splits)

lemma clients_handleJoin:
  "clients (fst (handleJoin s w m now h k)) =
     (if truthy (in_roomId m) \<and> truthy (in_senderId m) then
        (case clients s w of None \<Rightarrow> clients s
         | Some ci \<Rightarrow> (clients s)(w \<mapsto> ci\<lparr> ci_roomId := in_roomId m, ci_userId := in_senderId m \<rparr>))
      else clients s)"
  by (auto simp: handleJoin_def Let_def clients_leaveRoom truthy_def template_def
           split: option.splits sum.splits)

lemma keeps_delete: "keeps s (s\<lparr> clients := (clients s)(w := None) \<rparr>)"
  by (simp add: keeps_def)

lemma keeps_handleDisconnect: "keeps s (handleDisconnect s w now)"
proof (cases "clients s w")
  case None
  then show ?thesis by (simp add: handleDisconnect_def keeps_def)
next
  case (Some ci)
  let ?r = "template (ci_roomId ci)"
  let ?lm = "system_message ?r now (Some (user_or_unknown (ci_userId ci) @ left_text))"
  let ?s1 = "if truthy (ci_roomId ci) then leaveRoom (broadcastToRoom s ?r ?lm (Some w)) w ?r else s"
  have "keeps s (broadcastToRoom s ?r ?lm (Some w))" by (rule keeps_same) simp
  then have "keeps s (leaveRoom (broadcastToRoom s ?r ?lm (Some w)) w ?r)"
    by (rule keeps_trans) (rule keeps_leaveRoom)
  then have "keeps s ?s1" by (simp add: keeps_def)
  then have "keeps s (?s1\<lparr> clients := (clients ?s1)(w := None) \<rparr>)"
    by (rule keeps_trans) (rule keeps_delete)
  moreover have "handleDisconnect s w now = ?s1\<lparr> clients := (clients ?s1)(w := None) \<rparr>"
    using Some by (simp add: handleDisconnect_def Let_def)
  ultimately show ?thesis by simp
qed

lemma keeps_onClose: "keeps s (onClose s w now)"
proof -
  have "keeps (s\<lparr> readyState := (readyState s)(w := CLOSED), wss_clients := removeAll w (wss_clients s) \<rparr>)
          (onClose s w now)"
    unfolding onClose_def by (rule keeps_handleDisconnect)
  then show ?thesis by (simp add: keeps_def)
qed

lemma keeps_foldl_onClose: "keeps s (foldl (\<lambda>s' w. onClose s' w now) s ws)"
proof (induction ws arbitrary: s)
  case Nil
  then show ?case by (simp add: keeps_def)
next
  case (Cons a ws)
  have "keeps s (onClose s a now)" by (rule keeps_onClose)
  then show ?case using Cons [of "onClose s a now"] by (auto intro: keeps_trans)
qed

lemma clients_foldl_probe [simp]: "clients (foldl probe s ws) = clients s"
  by (induction ws arbitrary: s) (simp_all add: probe_def)

lemma keeps_heartbeat: "keeps s (heartbeat s now)"
proof -
  have "keeps (foldl probe s (wss_clients s)) (heartbeat s now)"
    unfolding heartbeat_def Let_def by (rule keeps_foldl_onClose)
  then show ?thesis by (simp add: keeps_def)
qed

lemma clients_onMessage:
  "clients (onMessage s w p now h k) =
     (case p of Unparsable \<Rightarrow> clients s | Parsed m \<Rightarrow> clients (fst (handleMessage s w m now h k)))"
proof (cases p)
  case Unparsable
  then show ?thesis by (simp add: onMessage_def)
next
  case (Parsed m)
  obtain s' x where r: "handleMessage s w m now h k = (s', x)" by (cases "handleMessage s w m now h k")
  show ?thesis using Parsed r by (cases x) (simp_all add: onMessage_def)
qed

lemma step_keeps:
  assumes "join_identity w e = None" and "clients (step s e) w = Some ci" and "truthy (ci_roomId ci)"
  shows "clients s w = Some ci"
proof (cases e)
  case (Connection w' cid now)
  then show ?thesis using assms
    by (auto simp: onConnection_def Let_def truthy_def split: if_splits)
next
  case (Data w' p now h k)
  show ?thesis
  proof (cases p)
    case Unparsable
    then show ?thesis using assms Data by (simp add: clients_onMessage)
  next
    case (Parsed m)
    have c: "clients (fst (handleMessage s w' m now h k)) w = Some ci"
      using assms(2) Data Parsed by (simp add: clients_onMessage)
    show ?thesis
    proof (cases "in_type m = ''join''")
      case True
      with c have "clients (fst (handleJoin s w' m now h k)) w = Some ci"
        by (simp add: handleMessage_def)
      moreover have "\<not> (w' = w \<and> truthy (in_roomId m) \<and> truthy (in_senderId m))"
        using assms(1) Data Parsed True by auto
      ultimately show ?thesis using assms(3)
        by (auto simp: clients_handleJoin truthy_def split: if_splits option.splits)
    next
      case False
      have "keeps s (fst (handleMessage s w' m now h k))"
        using False keeps_handleLeave [of s w' now k]
        by (auto simp: handleMessage_def intro: keeps_same)
      then show ?thesis using c assms(3) by (simp add: keeps_def)
    qed
  qed
next
  case (Close w' now)
  then show ?thesis using assms keeps_onClose [of s w' now] by (simp add: keeps_def)
next
  case (SocketError w' now)
  then show ?thesis using assms keeps_handleDisconnect [of s w' now] by (simp add: keeps_def)
next
  case (Tick now)
  then show ?thesis using assms keeps_heartbeat [of s now] by (simp add: keeps_def)
next
  case (PongReceived w')
  then show ?thesis using assms by simp
next
  case (Closing w')
  then show ?thesis using assms by (simp split: if_splits)
qed

lemma join_identity_SomeD:
  assumes "join_identity w e = Some u"
  shows "\<exists>m now h k. e = Data w (Parsed m) now h k \<and> in_type m = ''join'' \<and> truthy (in_roomId m)
        \<and> truthy (in_senderId m) \<and> in_senderId m = Some u"
proof (cases e)
  case (Data w' p now h k)
  show ?thesis
  proof (cases p)
    case Unparsable
    then show ?thesis using assms Data by simp
  next
    case (Parsed m)
    then show ?thesis using assms Data by (simp split: if_splits)
  qed
qed (use assms in simp_all)

lemma bound_identity:
  "clients (run relay_init evs) w = Some ci \<Longrightarrow> truthy (ci_roomId ci) \<Longrightarrow>
     truthy (ci_userId ci) \<and> ci_userId ci = last_join w evs"
proof (induction evs arbitrary: ci rule: rev_induct)
  case Nil
  then show ?case by (simp add: run_def relay_init_def)
next
  case (snoc e evs)
  let ?s = "run relay_init evs"
  have st: "run relay_init (evs @ [e]) = step ?s e" by (simp add: run_def)
  show ?case
  proof (cases "join_identity w e")
    case None
    then have lj: "last_join w (evs @ [e]) = last_join w evs" by (simp add: last_join_def)
    have "clients (step ?s e) w = Some ci" using snoc.prems(1) st by simp
    then have "clients ?s w = Some ci"
      using snoc.prems(2) by (rule step_keeps [OF None])
    then have "truthy (ci_userId ci) \<and> ci_userId ci = last_join w evs"
      using snoc.prems(2) by (rule snoc.IH)
    then show ?thesis by (auto simp: lj)
  next
    case (Some u)
    then have lj: "last_join w (evs @ [e]) = Some u" by (simp add: last_join_def)
    from join_identity_SomeD [OF Some] obtain m now h k where
      e: "e = Data w (Parsed m) now h k" "in_type m = ''join''" "truthy (in_roomId m)"
         "truthy (in_senderId m)" "in_senderId m = Some u"
      by blast
    have "clients (fst (handleJoin ?s w m now h k)) w = Some ci"
      using snoc.prems(1) st e(1,2) by (simp add: clients_onMessage handleMessage_def)
    then have "ci_userId ci = in_senderId m"
      using e(3,4) by (cases "clients ?s w") (auto simp: clients_handleJoin)
    then show ?thesis using e(4,5) by (auto simp: lj)
  qed
qed

section \<open>Chat messages\<close>

lemma handleChatMessage_accepted:
  assumes "clients s w = Some ci" and "truthy (ci_roomId ci)" and "truthy (in_content m)"
  shows "handleChatMessage s w m now k =
     (if k \<and> schema_ok (normalizedMessage ci m now)
      then (broadcastToRoom (s\<lparr> store := store s @ [(Suc (length (store s)), normalizedMessage ci m now)] \<rparr>)
              (template (ci_roomId ci)) (normalizedMessage ci m now) None, None)
      else (s, Some StoreError))"
  using assms by (simp add: handleChatMessage_def saveMessage_def)

lemma new_frames_append: "wire s' c = wire s c @ fs \<Longrightarrow> new_frames s s' c = fs"
  by (simp add: new_frames_def)

lemma handleChatMessage_frames:
  assumes "clients s w = Some ci" and "truthy (ci_roomId ci)" and "truthy (in_content m)"
  shows "\<forall>f\<in>set (new_frames s (fst (handleChatMessage s w m now k)) c).
            f = Echo (normalizedMessage ci m now)"
proof (cases "k \<and> schema_ok (normalizedMessage ci m now)")
  case True
  let ?nm = "normalizedMessage ci m now"
  let ?s1 = "s\<lparr> store := store s @ [(Suc (length (store s)), ?nm)] \<rparr>"
  obtain n where "wire (broadcastToRoom ?s1 (template (ci_roomId ci)) ?nm None) c =
                    wire ?s1 c @ replicate n (Echo ?nm)"
    using wire_broadcast by blast
  then have "wire (fst (handleChatMessage s w m now k)) c = wire s c @ replicate n (Echo ?nm)"
    using True by (simp add: handleChatMessage_accepted [OF assms])
  then have "new_frames s (fst (handleChatMessage s w m now k)) c = replicate n (Echo ?nm)"
    by (rule new_frames_append)
  then show ?thesis by simp
next
  case False
  then have "handleChatMessage s w m now k = (s, Some StoreError)"
    unfolding handleChatMessage_accepted [OF assms] by (rule if_not_P)
  then show ?thesis by (simp add: new_frames_def)
qed

lemma handleChatMessage_store:
  assumes "clients s w = Some ci" and "truthy (ci_roomId ci)" and "truthy (in_content m)"
  shows "store (fst (handleChatMessage s w m now k)) =
     (if k \<and> schema_ok (normalizedMessage ci m now)
      then store s @ [(Suc (length (store s)), normalizedMessage ci m now)] else store s)"
  by (simp add: handleChatMessage_accepted [OF assms])

lemma schema_ok_chat:
  assumes "truthy (ci_userId ci)" and "truthy (in_content m)"
    and "in_type m \<in> set [''text'', ''audio'', ''video'']"
  shows "schema_ok (normalizedMessage ci m now)"
  using assms by (auto simp: schema_ok_def normalizedMessage_def js_or_def truthy_def
                       split: option.splits)

text \<open>
  C7. In every state the relay reaches, for a socket bound to a room and an inbound
  chat frame with content, the \<open>senderId\<close> of the normalized message is the identity
  the socket supplied in its most recent accepted join, whatever \<open>senderId\<close> the frame
  carries; every frame the handler broadcasts is that message, and the row it appends to
  the store (when the write succeeds) is that message. For the types text, audio and
  video the message meets the table's constraints.
\<close>

theorem chat_sender_is_join_identity:
  assumes "clients (run relay_init evs) w = Some ci"
    and "truthy (ci_roomId ci)" and "truthy (in_content m)"
  shows "senderId (normalizedMessage ci m now) = last_join w evs
     \<and> truthy (last_join w evs)
     \<and> (\<forall>c. \<forall>f\<in>set (new_frames (run relay_init evs)
                 (fst (handleChatMessage (run relay_init evs) w m now save_ok)) c).
            f = Echo (normalizedMessage ci m now))
     \<and> store (fst (handleChatMessage (run relay_init evs) w m now save_ok)) =
         (if save_ok \<and> schema_ok (normalizedMessage ci m now)
          then store (run relay_init evs) @
                 [(Suc (length (store (run relay_init evs))), normalizedMessage ci m now)]
          else store (run relay_init evs))
     \<and> (in_type m \<in> set [''text'', ''audio'', ''video''] \<longrightarrow> schema_ok (normalizedMessage ci m now))"
proof -
  have "truthy (ci_userId ci) \<and> ci_userId ci = last_join w evs"
    using assms(1,2) by (rule bound_identity)
  then have b1: "truthy (ci_userId ci)" and b2: "ci_userId ci = last_join w evs"
    by blast+
  have "senderId (normalizedMessage ci m now) = ci_userId ci"
    using b1 by (simp add: normalizedMessage_def js_or_def)
  then have "senderId (normalizedMessage ci m now) = last_join w evs"
    using b2 by simp
  moreover have "truthy (last_join w evs)" using b1 b2 by simp
  moreover have "in_type m \<in> set [''text'', ''audio'', ''video''] \<longrightarrow> schema_ok (normalizedMessage ci m now)"
    using b1 assms(3) schema_ok_chat by blast
  ultimately show ?thesis
    using handleChatMessage_frames [OF assms] handleChatMessage_store [OF assms]
    by simp
qed

theorem chat_sender_is_join_identity_witness:
  "clients (run relay_init
       [Connection 0 ''c0'' 10, Data 0 (Parsed (join_frame ''r1'' ''u1'')) 20 True True]) 0
     = Some \<lparr> ci_id = ''c0'', ci_roomId = Some ''r1'', ci_userId = Some ''u1'', ci_connectedAt = 10 \<rparr>
   \<and> truthy (Some ''r1'') \<and> truthy (Some ''hi'')
   \<and> senderId (normalizedMessage
         \<lparr> ci_id = ''c0'', ci_roomId = Some ''r1'', ci_userId = Some ''u1'', ci_connectedAt = 10 \<rparr>
         ((text_frame ''hi'')\<lparr> in_senderId := Some ''mallory'' \<rparr>) 30) = Some ''u1''
   \<and> last_join 0 [Connection 0 ''c0'' 10, Data 0 (Parsed (join_frame ''r1'' ''u1'')) 20 True True]
       = Some ''u1''"
proof -
  let ?E = "[Connection 0 ''c0'' 10, Data 0 (Parsed (join_frame ''r1'' ''u1'')) 20 True True]"
  let ?ci = "\<lparr> ci_id = ''c0'', ci_roomId = Some ''r1'', ci_userId = Some ''u1'', ci_connectedAt = 10 \<rparr>"
  let ?m = "(text_frame ''hi'')\<lparr> in_senderId := Some ''mallory'' \<rparr>"
  have a: "clients (run relay_init ?E) 0 = Some ?ci" by (simp add: relay_eval)
  have b: "truthy (ci_roomId ?ci)" by (simp add: truthy_def)
  have c: "truthy (in_content ?m)" by (simp add: truthy_def text_frame_def frame_of_def)
  have d: "last_join 0 ?E = Some ''u1''"
    by (simp add: last_join_def join_frame_def frame_of_def truthy_def)
  show ?thesis
    using chat_sender_is_join_identity [OF a b c, of 30 True] a d
    by (simp add: truthy_def)
qed

text \<open>
  C3, as amended. For a chat frame the relay accepts, the timestamp of the persisted and
  broadcast message is the timestamp of the inbound frame when the frame carries one
  that is not 0, and the server's clock at creation otherwise.
\<close>

theorem chat_timestamp_from_client_or_server:
  assumes "clients (run relay_init evs) w = Some ci"
    and "truthy (ci_roomId ci)" and "truthy (in_content m)"
  shows "timestamp (normalizedMessage ci m now) =
           (case in_timestamp m of None \<Rightarrow> now | Some t \<Rightarrow> if t = 0 then now else t)
     \<and> (\<forall>c. \<forall>f\<in>set (new_frames (run relay_init evs)
                 (fst (handleChatMessage (run relay_init evs) w m now save_ok)) c).
            f = Echo (normalizedMessage ci m now))
     \<and> store (fst (handleChatMessage (run relay_init evs) w m now save_ok)) =
         (if save_ok \<and> schema_ok (normalizedMessage ci m now)
          then store (run relay_init evs) @
                 [(Suc (length (store (run relay_init evs))), normalizedMessage ci m now)]
          else store (run relay_init evs))"
proof -
  have "timestamp (normalizedMessage ci m now) =
           (case in_timestamp m of None \<Rightarrow> now | Some t \<Rightarrow> if t = 0 then now else t)"
    by (simp add: normalizedMessage_def timestamp_or_def split: option.splits)
  then show ?thesis
    using handleChatMessage_frames [OF assms] handleChatMessage_store [OF assms]
    by simp
qed

theorem chat_timestamp_from_client_or_server_witness:
  "clients (run relay_init
       [Connection 0 ''c0'' 10, Data 0 (Parsed (join_frame ''r1'' ''u1'')) 20 True True]) 0
     = Some \<lparr> ci_id = ''c0'', ci_roomId = Some ''r1'', ci_userId = Some ''u1'', ci_connectedAt = 10 \<rparr>
   \<and> truthy (Some ''r1'') \<and> truthy (Some ''hi'')
   \<and> timestamp (normalizedMessage
         \<lparr> ci_id = ''c0'', ci_roomId = Some ''r1'', ci_userId = Some ''u1'', ci_connectedAt = 10 \<rparr>
         ((text_frame ''hi'')\<lparr> in_timestamp := Some 5 \<rparr>) 1000) = 5
   \<and> timestamp (normalizedMessage
         \<lparr> ci_id = ''c0'', ci_roomId = Some ''r1'', ci_userId = Some ''u1'', ci_connectedAt = 10 \<rparr>
         (text_frame ''hi'') 1000) = 1000"
proof -
  let ?E = "[Connection 0 ''c0'' 10, Data 0 (Parsed (join_frame ''r1'' ''u1'')) 20 True True]"
  let ?ci = "\<lparr> ci_id = ''c0'', ci_roomId = Some ''r1'', ci_userId = Some ''u1'', ci_connectedAt = 10 \<rparr>"
  have a: "clients (run relay_init ?E) 0 = Some ?ci" by (simp add: relay_eval)
  have b: "truthy (ci_roomId ?ci)" by (simp add: truthy_def)
  have c: "truthy (in_content ((text_frame ''hi'')\<lparr> in_timestamp := Some 5 \<rparr>))"
    by (simp add: truthy_def text_frame_def frame_of_def)
  have c': "truthy (in_content (text_frame ''hi''))"
    by (simp add: truthy_def text_frame_def frame_of_def)
  show ?thesis
    using chat_timestamp_from_client_or_server [OF a b c, of 1000 True]
          chat_timestamp_from_client_or_server [OF a b c', of 1000 True] a
    by (simp add: truthy_def text_frame_def frame_of_def)
qed

text \<open>
  C3, as stated, fails: a joined socket sends a text frame with timestamp 5 while the
  server's clock reads 1000; the row persisted and the frame echoed carry 5.
\<close>

theorem client_timestamp_is_used:
  "timestamp (snd (last (store (run relay_init
       [Connection 0 ''c0'' 10, Data 0 (Parsed (join_frame ''r1'' ''u1'')) 20 True True,
        Data 0 (Parsed ((text_frame ''hi'')\<lparr> in_timestamp := Some 5 \<rparr>)) 1000 True True])))) = 5
   \<and> (\<exists>m. last (wire (run relay_init
       [Connection 0 ''c0'' 10, Data 0 (Parsed (join_frame ''r1'' ''u1'')) 20 True True,
        Data 0 (Parsed ((text_frame ''hi'')\<lparr> in_timestamp := Some 5 \<rparr>)) 1000 True True]) 0) = Echo m
        \<and> timestamp m = 5)
   \<and> (5::int) \<noteq> 1000"
  by (simp add: relay_eval)

section \<open>Scenarios\<close>

text \<open>
  C1. The claim: when the append of a chat message fails, the relay still broadcasts the
  message to the room. In \<^verbatim>\<open>handleChatMessage\<close> the awaited \<^verbatim>\<open>saveMessage\<close> comes
  before the broadcast and outside any try/catch: with sockets 0 and 1 open in room r1
  and the write failing, socket 0's text frame reaches nobody, and socket 0 is sent the
  error frame of the \<^verbatim>\<open>message\<close> listener's catch.
\<close>

theorem store_failure_suppresses_broadcast:
  "map_of (rooms (run relay_init two_in_r1)) ''r1'' = Some [0, 1]
   \<and> readyState (run relay_init two_in_r1) 0 = OPEN
   \<and> readyState (run relay_init two_in_r1) 1 = OPEN
   \<and> new_frames (run relay_init two_in_r1)
        (run relay_init (two_in_r1 @ [Data 0 (Parsed (text_frame ''hi'')) 50 True False])) 0
       = [ErrorFrame ''Invalid message format'' 50]
   \<and> new_frames (run relay_init two_in_r1)
        (run relay_init (two_in_r1 @ [Data 0 (Parsed (text_frame ''hi'')) 50 True False])) 1 = []
   \<and> store (run relay_init (two_in_r1 @ [Data 0 (Parsed (text_frame ''hi'')) 50 True False]))
       = store (run relay_init two_in_r1)"
  by code_simp

text \<open>
  C2. The claim: the liveness flag is set on any heartbeat response, and a connection
  that answers every probe is never evicted. No listener sets \<^verbatim>\<open>isAlive\<close>: after the
  first tick and the peer's pong the flag is still \<^verbatim>\<open>false\<close>, and the second tick
  terminates the connection and removes it.
\<close>

theorem responsive_connection_is_terminated:
  "isAlive (run relay_init [Connection 0 ''c0'' 0, Tick 30000, PongReceived 0]) 0 = Some False
   \<and> readyState (run relay_init [Connection 0 ''c0'' 0, Tick 30000, PongReceived 0]) 0 = OPEN
   \<and> clients (run relay_init [Connection 0 ''c0'' 0, Tick 30000, PongReceived 0, Tick 60000]) 0 = None
   \<and> readyState (run relay_init [Connection 0 ''c0'' 0, Tick 30000, PongReceived 0, Tick 60000]) 0 = CLOSED
   \<and> wss_clients (run relay_init [Connection 0 ''c0'' 0, Tick 30000, PongReceived 0, Tick 60000]) = []"
  by code_simp

text \<open>
  C5. The claim: a join from a socket bound to another room first emits the leave side
  effects in the old room. \<^verbatim>\<open>handleJoin\<close> calls \<^verbatim>\<open>leaveRoom\<close> only: when socket 0 moves
  from r1 to r2, socket 1 in r1 is sent nothing and the only row written is the join
  message of r2; an explicit leave frame from socket 0 does send socket 1 the leave
  message and writes it.
\<close>

theorem room_switch_is_silent:
  "map_of (rooms (run relay_init two_in_r1)) ''r1'' = Some [0, 1]
   \<and> readyState (run relay_init two_in_r1) 1 = OPEN
   \<and> rooms (run relay_init (two_in_r1 @ [Data 0 (Parsed (join_frame ''r2'' ''u1'')) 50 True True]))
       = [(''r1'', [1]), (''r2'', [0])]
   \<and> new_frames (run relay_init two_in_r1)
        (run relay_init (two_in_r1 @ [Data 0 (Parsed (join_frame ''r2'' ''u1'')) 50 True True])) 1 = []
   \<and> drop (length (store (run relay_init two_in_r1)))
        (store (run relay_init (two_in_r1 @ [Data 0 (Parsed (join_frame ''r2'' ''u1'')) 50 True True])))
       = [(3, system_message ''r2'' 50 (Some (''u1'' @ joined_text)))]
   \<and> new_frames (run relay_init two_in_r1)
        (run relay_init (two_in_r1 @ [Data 0 (Parsed (frame_of ''leave'')) 50 True True])) 1
       = [Echo (system_message ''r1'' 50 (Some (''u1'' @ left_text)))]
   \<and> drop (length (store (run relay_init two_in_r1)))
        (store (run relay_init (two_in_r1 @ [Data 0 (Parsed (frame_of ''leave'')) 50 True True])))
       = [(3, system_message ''r1'' 50 (Some (''u1'' @ left_text)))]"
  by code_simp

text \<open>
  C6, as stated, fails: after the join and the text frame the store does not hold
  exactly one row for r1.
\<close>

theorem scenario_a_store_has_two_rows:
  "length (filter (\<lambda>x. roomId (snd x) = ''r1'')
      (store (run relay_init
        [Connection 0 ''c0'' 10, Data 0 (Parsed (join_frame ''r1'' ''u1'')) 20 True True,
         Data 0 (Parsed (text_frame ''hi'')) 30 True True]))) \<noteq> 1"
  by code_simp

text \<open>The segments in sequence are the handlers.\<close>

lemma handleJoin_segments:
  "handleJoin s w m now hist_ok save_ok =
     (case join_enter s w m now of
        (s1, Finished e) \<Rightarrow> (s1, e)
      | (s1, Awaiting (r, u)) \<Rightarrow>
          (case join_replay s1 w r u (getHistory hist_ok (store s1) r 1 50) now of
             (s2, joinMessage) \<Rightarrow> insert_row save_ok joinMessage s2))"
proof (cases "\<not> truthy (in_roomId m) \<or> \<not> truthy (in_senderId m)")
  case True
  then show ?thesis by (auto simp: handleJoin_def join_enter_def)
next
  case valid: False
  show ?thesis
  proof (cases "clients s w")
    case None
    then show ?thesis using valid by (simp add: handleJoin_def join_enter_def)
  next
    case (Some ci)
    then show ?thesis using valid
      by (cases "getHistory hist_ok (store s) (template (in_roomId m)) 1 50";
          cases "truthy (ci_roomId ci)")
         (simp_all add: handleJoin_def join_enter_def join_replay_def insert_row_def Let_def
            split: sum.splits)
  qed
qed

lemma handleChatMessage_segments:
  "handleChatMessage s w m now save_ok =
     (case chat_enter s w m now of
        (s1, Finished e) \<Rightarrow> (s1, e)
      | (s1, Awaiting nm) \<Rightarrow>
          (case insert_row save_ok nm s1 of
             (s2, Some e) \<Rightarrow> (s2, Some e)
           | (s2, None) \<Rightarrow> (chat_echo s2 w nm, None)))"
  by (auto simp: handleChatMessage_def chat_enter_def insert_row_def chat_echo_def truthy_def
        template_def split: option.splits sum.splits)

lemma scene0_inv: "scene_inv w cid t0 (scene0 w cid t0)"
  by (simp add: scene_inv_def scene0_def onConnection_def relay_init_def ws_send_def rows_of_def
        Let_def)


lemma rows_of_append:
  "rows_of r (s\<lparr> store := store s @ [(i, m)] \<rparr>) =
     rows_of r s @ (if roomId m = r then [m] else [])"
  by (simp add: rows_of_def)

lemma schema_ok_join_row: "join_row jm \<Longrightarrow> schema_ok jm"
  by (simp add: join_row_def schema_ok_def)

lemma schema_ok_text_row: "text_row nm \<Longrightarrow> schema_ok nm"
  by (simp add: text_row_def schema_ok_def)

lemma insert_row_ok:
  "schema_ok m \<Longrightarrow>
     insert_row True m s = (s\<lparr> store := store s @ [(Suc (length (store s)), m)] \<rparr>, None)"
  by (simp add: insert_row_def saveMessage_def)

lemma inv_JoinArrives:
  assumes "scene_inv w cid t0 c"
  shows "scene_inv w cid t0 (micro w c (JoinArrives now))"
proof (cases "jt c")
  case JNot
  have ct: "ct c = CNot" using assms JNot by (simp add: scene_inv_def)
  have "join_enter (sys c) w (join_frame ''r1'' ''u1'') now =
      (ws_send ((sys c)\<lparr> clients := (clients (sys c))(w \<mapsto>
           \<lparr> ci_id = cid, ci_roomId = Some ''r1'', ci_userId = Some ''u1'', ci_connectedAt = t0 \<rparr>),
          rooms := [(''r1'', [w])] \<rparr>) w (Joined ''r1'' ''u1'' now), Awaiting (''r1'', ''u1''))"
    using assms JNot
    by (simp add: scene_inv_def join_enter_def join_frame_def frame_of_def truthy_def
          template_def add_member_def Let_def)
  then show ?thesis using assms JNot ct
    by (simp add: scene_inv_def wire_ws_send rows_of_def)
qed (use assms in \<open>simp_all add: scene_inv_def\<close>)

lemma inv_QueryRuns:
  assumes "scene_inv w cid t0 c"
  shows "scene_inv w cid t0 (micro w c QueryRuns)"
  using assms by (cases "jt c") (simp_all add: scene_inv_def rows_of_def)

lemma inv_JoinResumes:
  assumes "scene_inv w cid t0 c"
  shows "scene_inv w cid t0 (micro w c (JoinResumes now))"
proof (cases "jt c")
  case (JFetched r u fetched)
  then have ru: "r = ''r1''" "u = ''u1''" using assms by (simp_all add: scene_inv_def)
  have rooms: "rooms (sys c) = [(''r1'', [w])]" and open_w: "readyState (sys c) w = OPEN"
    using assms JFetched by (simp_all add: scene_inv_def)
  define s5 where "s5 = (case fetched of
                  Inl _ \<Rightarrow> sys c
                | Inr history \<Rightarrow>
                    if length history > 0 then ws_send (sys c) w (History (rev history)) else sys c)"
  have f5: "rooms s5 = rooms (sys c)" "clients s5 = clients (sys c)" "store s5 = store (sys c)"
    "readyState s5 = readyState (sys c)"
    "filter is_echo (wire s5 w) = filter is_echo (wire (sys c) w)"
    by (cases fetched; simp add: s5_def wire_ws_send)+
  have jr: "join_replay (sys c) w ''r1'' ''u1'' fetched now =
      (broadcastToRoom s5 ''r1'' (system_message ''r1'' now (Some (''u1'' @ joined_text))) (Some w),
       system_message ''r1'' now (Some (''u1'' @ joined_text)))"
    by (simp add: join_replay_def Let_def s5_def)
  have w6: "wire (broadcastToRoom s5 ''r1'' (system_message ''r1'' now (Some (''u1'' @ joined_text))) (Some w)) w
       = wire s5 w"
    by (rule wire_broadcast_excluded)
  have jm: "join_row (system_message ''r1'' now (Some (''u1'' @ joined_text)))"
    by (simp add: join_row_def system_message_def)
  show ?thesis using assms JFetched ru jm jr
    by (simp add: scene_inv_def f5 wire_broadcast_excluded rows_of_def)
qed (use assms in \<open>simp_all add: scene_inv_def\<close>)

lemma inv_JoinInsertRuns:
  assumes "scene_inv w cid t0 c"
  shows "scene_inv w cid t0 (micro w c JoinInsertRuns)"
proof (cases "jt c")
  case (JInsert jm)
  then have jm: "join_row jm" using assms by (simp add: scene_inv_def)
  then have r: "roomId jm = ''r1''" by (simp add: join_row_def)
  show ?thesis using assms JInsert jm r
    by (simp add: insert_row_ok [OF schema_ok_join_row [OF jm]] scene_inv_def rows_of_def)
qed (use assms in \<open>simp_all add: scene_inv_def\<close>)

lemma inv_JoinReturns:
  assumes "scene_inv w cid t0 c"
  shows "scene_inv w cid t0 (micro w c (JoinReturns now))"
proof (cases "jt c")
  case (JSaved jm e)
  then have "e = None" using assms by (simp add: scene_inv_def)
  then show ?thesis using assms JSaved by (simp add: scene_inv_def rows_of_def)
qed (use assms in \<open>simp_all add: scene_inv_def\<close>)

lemma inv_TextArrives:
  assumes "scene_inv w cid t0 c"
  shows "scene_inv w cid t0 (micro w c (TextArrives now))"
proof (cases "jt c = JNot")
  case True
  then show ?thesis using assms by simp
next
  case bound: False
  show ?thesis
  proof (cases "ct c")
    case CNot
    have "chat_enter (sys c) w (text_frame ''hi'') now =
        (sys c, Awaiting (normalizedMessage
           \<lparr> ci_id = cid, ci_roomId = Some ''r1'', ci_userId = Some ''u1'', ci_connectedAt = t0 \<rparr>
           (text_frame ''hi'') now))"
      using assms bound
      by (simp add: scene_inv_def chat_enter_def truthy_def text_frame_def frame_of_def)
    moreover have "text_row (normalizedMessage
           \<lparr> ci_id = cid, ci_roomId = Some ''r1'', ci_userId = Some ''u1'', ci_connectedAt = t0 \<rparr>
           (text_frame ''hi'') now)"
      by (simp add: text_row_def normalizedMessage_def text_frame_def frame_of_def js_or_def
            truthy_def template_def)
    ultimately show ?thesis using assms bound CNot
      by (simp add: scene_inv_def rows_of_def)
  qed (use assms bound in \<open>simp_all add: scene_inv_def\<close>)
qed

lemma inv_TextInsertRuns:
  assumes "scene_inv w cid t0 c"
  shows "scene_inv w cid t0 (micro w c TextInsertRuns)"
proof (cases "ct c")
  case (CInsert nm)
  then have nm: "text_row nm" using assms by (simp add: scene_inv_def)
  then have r: "roomId nm = ''r1''" by (simp add: text_row_def)
  show ?thesis using assms CInsert nm r
    by (simp add: insert_row_ok [OF schema_ok_text_row [OF nm]] scene_inv_def rows_of_def)
qed (use assms in \<open>simp_all add: scene_inv_def\<close>)

lemma inv_TextResumes:
  assumes "scene_inv w cid t0 c"
  shows "scene_inv w cid t0 (micro w c (TextResumes now))"
proof (cases "ct c")
  case (CSaved nm e)
  then have e: "e = None" using assms by (simp add: scene_inv_def)
  have bound: "jt c \<noteq> JNot" using assms CSaved by (auto simp: scene_inv_def)
  have "chat_echo (sys c) w nm = ws_send (sys c) w (Echo nm)"
    using assms bound
    by (simp add: scene_inv_def chat_echo_def broadcastToRoom_def deliver_def)
  then show ?thesis using assms CSaved e bound
    by (simp add: scene_inv_def wire_ws_send rows_of_def)
qed (use assms in \<open>simp_all add: scene_inv_def\<close>)

lemma inv_micro: "scene_inv w cid t0 c \<Longrightarrow> scene_inv w cid t0 (micro w c mv)"
  by (cases mv)
     (simp_all only: inv_JoinArrives inv_QueryRuns inv_JoinResumes inv_JoinInsertRuns
        inv_JoinReturns inv_TextArrives inv_TextInsertRuns inv_TextResumes)

lemma inv_play: "scene_inv w cid t0 c \<Longrightarrow> scene_inv w cid t0 (play w c ms)"
  unfolding play_def by (induction ms arbitrary: c) (simp_all add: inv_micro)


lemma serial_join:
  assumes "jt c = JNot"
  shows "sys (play w c [JoinArrives t, QueryRuns, JoinResumes t, JoinInsertRuns, JoinReturns t]) =
         onMessage (sys c) w (Parsed (join_frame ''r1'' ''u1'')) t True True"
proof -
  have ty: "in_type (join_frame ''r1'' ''u1'') = ''join''"
    by (simp add: join_frame_def frame_of_def)
  obtain s1 x where je: "join_enter (sys c) w (join_frame ''r1'' ''u1'') t = (s1, x)"
    by (cases "join_enter (sys c) w (join_frame ''r1'' ''u1'') t")
  show ?thesis
  proof (cases x)
    case (Finished e)
    then show ?thesis using assms je
      by (cases e) (simp_all add: play_def onMessage_def handleMessage_def ty handleJoin_segments)
  next
    case (Awaiting ru)
    obtain r u where ru: "ru = (r, u)" by (cases ru)
    obtain s2 jm where jr: "join_replay s1 w r u (getHistory True (store s1) r 1 50) t = (s2, jm)"
      by (cases "join_replay s1 w r u (getHistory True (store s1) r 1 50) t")
    obtain s3 e where ir: "insert_row True jm s2 = (s3, e)"
      by (cases "insert_row True jm s2")
    show ?thesis using assms je Awaiting ru jr ir
      by (cases e) (simp_all add: play_def onMessage_def handleMessage_def ty handleJoin_segments)
  qed
qed

lemma serial_text:
  assumes "jt c \<noteq> JNot" and "ct c = CNot"
  shows "sys (play w c [TextArrives t, TextInsertRuns, TextResumes t]) =
         onMessage (sys c) w (Parsed (text_frame ''hi'')) t hist_ok True"
proof -
  have ty: "in_type (text_frame ''hi'') = ''text''"
    by (simp add: text_frame_def frame_of_def)
  obtain s1 x where ce: "chat_enter (sys c) w (text_frame ''hi'') t = (s1, x)"
    by (cases "chat_enter (sys c) w (text_frame ''hi'') t")
  show ?thesis
  proof (cases x)
    case (Finished e)
    then show ?thesis using assms ce
      by (cases e) (simp_all add: play_def onMessage_def handleMessage_def ty handleChatMessage_segments)
  next
    case (Awaiting nm)
    obtain s2 e where ir: "insert_row True nm s1 = (s2, e)"
      by (cases "insert_row True nm s1")
    show ?thesis using assms ce Awaiting ir
      by (cases e) (simp_all add: play_def onMessage_def handleMessage_def ty handleChatMessage_segments)
  qed
qed

text \<open>The schedule in which the join handler finishes first is the run of two events.\<close>

lemma play_append: "play w c (xs @ ys) = play w (play w c xs) ys"
  by (simp add: play_def)

lemma jt_started: "jt c \<noteq> JNot \<Longrightarrow> jt (micro w c mv) \<noteq> JNot"
  by (cases mv; cases "jt c")
     (auto split: prod.splits suspension.splits option.splits chat_phase.splits)

lemma jt_JoinArrives: "jt (micro w c (JoinArrives t)) \<noteq> JNot"
  by (cases "jt c") (auto split: prod.splits suspension.splits option.splits)

lemma ct_join_moves:
  "ct (micro w c (JoinArrives t)) = ct c" "ct (micro w c QueryRuns) = ct c"
  "ct (micro w c (JoinResumes t)) = ct c" "ct (micro w c JoinInsertRuns) = ct c"
  "ct (micro w c (JoinReturns t)) = ct c"
  by (cases "jt c"; auto split: prod.splits suspension.splits option.splits)+

lemma serial_is_run:
  "sys (play w (scene0 w cid t0)
     [JoinArrives t1, QueryRuns, JoinResumes t1, JoinInsertRuns, JoinReturns t1,
      TextArrives t2, TextInsertRuns, TextResumes t2]) =
   run relay_init
     [Connection w cid t0, Data w (Parsed (join_frame ''r1'' ''u1'')) t1 True True,
      Data w (Parsed (text_frame ''hi'')) t2 hist_ok True]"
proof -
  let ?js = "[JoinArrives t1, QueryRuns, JoinResumes t1, JoinInsertRuns, JoinReturns t1]"
  let ?ts = "[TextArrives t2, TextInsertRuns, TextResumes t2]"
  let ?c1 = "play w (scene0 w cid t0) ?js"
  have j: "sys ?c1 = onMessage (sys (scene0 w cid t0)) w (Parsed (join_frame ''r1'' ''u1'')) t1 True True"
    by (rule serial_join) (simp add: scene0_def)
  have started: "jt ?c1 \<noteq> JNot"
    by (simp add: play_def jt_started jt_JoinArrives del: micro.simps)
  have idle: "ct ?c1 = CNot"
    by (simp add: play_def ct_join_moves scene0_def del: micro.simps)
  have t: "sys (play w ?c1 ?ts) = onMessage (sys ?c1) w (Parsed (text_frame ''hi'')) t2 hist_ok True"
    using started idle by (rule serial_text)
  have "play w (scene0 w cid t0) (?js @ ?ts) = play w ?c1 ?ts"
    by (rule play_append)
  then have "sys (play w (scene0 w cid t0) (?js @ ?ts)) =
      onMessage (onMessage (onConnection relay_init w cid t0) w (Parsed (join_frame ''r1'' ''u1'')) t1 True True)
        w (Parsed (text_frame ''hi'')) t2 hist_ok True"
    by (simp only: t j) (simp add: scene0_def)
  moreover have "run relay_init
     [Connection w cid t0, Data w (Parsed (join_frame ''r1'' ''u1'')) t1 True True,
      Data w (Parsed (text_frame ''hi'')) t2 hist_ok True] =
      onMessage (onMessage (onConnection relay_init w cid t0) w (Parsed (join_frame ''r1'' ''u1'')) t1 True True)
        w (Parsed (text_frame ''hi'')) t2 hist_ok True"
    by (simp add: run_def relay_init_def)
  ultimately show ?thesis by simp
qed

text \<open>The two schedules leave the two rows in opposite orders.\<close>

lemma schedules_differ_in_row_order:
  "map (mtype \<circ> snd) (store (sys (play 0 (scene0 0 ''c0'' 10) serial))) = [''system'', ''text'']
   \<and> map (mtype \<circ> snd) (store (sys (play 0 (scene0 0 ''c0'' 10) back_to_back))) =
       [''text'', ''system'']"
  by code_simp

text \<open>
  C6, as amended. From the initial state a socket connects, sends the join frame for r1
  as u1 and then the text frame hi, the database calls succeeding. Whatever the order in
  which the two handlers and their database statements run, once both handlers have
  finished the socket has been sent exactly one message frame, the text message with
  senderId u1 and content hi, and the store holds exactly two rows for r1: the system
  message of the join and the text message. The schedule in which the join handler
  finishes before the text frame arrives is the run of the connection, join and text
  events.
\<close>

theorem scenario_a:
  assumes "jt (play w (scene0 w cid t0) ms) = JDone jm"
    and "ct (play w (scene0 w cid t0) ms) = CDone nm"
  shows "mtype nm = ''text'' \<and> senderId nm = Some ''u1'' \<and> content nm = Some ''hi''
     \<and> filter is_echo (wire (sys (play w (scene0 w cid t0) ms)) w) = [Echo nm]
     \<and> length (filter (\<lambda>x. roomId (snd x) = ''r1'') (store (sys (play w (scene0 w cid t0) ms)))) = 2
     \<and> mset (map snd (filter (\<lambda>x. roomId (snd x) = ''r1'')
          (store (sys (play w (scene0 w cid t0) ms))))) = {#jm, nm#}
     \<and> join_row jm
     \<and> sys (play w (scene0 w cid t0)
           [JoinArrives t1, QueryRuns, JoinResumes t1, JoinInsertRuns, JoinReturns t1,
            TextArrives t2, TextInsertRuns, TextResumes t2]) =
         run relay_init
           [Connection w cid t0, Data w (Parsed (join_frame ''r1'' ''u1'')) t1 True True,
            Data w (Parsed (text_frame ''hi'')) t2 hist_ok True]"
proof -
  let ?c = "play w (scene0 w cid t0) ms"
  have inv: "scene_inv w cid t0 ?c"
    by (rule inv_play) (rule scene0_inv)
  have nm: "text_row nm" using inv assms(2) by (simp add: scene_inv_def)
  have jm: "join_row jm" using inv assms(1) by (simp add: scene_inv_def)
  have echo: "filter is_echo (wire (sys ?c) w) = [Echo nm]"
    using inv assms(2) by (simp add: scene_inv_def)
  have rows: "mset (rows_of ''r1'' (sys ?c)) = {#jm, nm#}"
    using inv assms by (simp add: scene_inv_def)
  have "length (rows_of ''r1'' (sys ?c)) = size (mset (rows_of ''r1'' (sys ?c)))"
    by (simp only: size_mset)
  also have "\<dots> = 2" by (simp only: rows) simp
  finally have len: "length (filter (\<lambda>x. roomId (snd x) = ''r1'') (store (sys ?c))) = 2"
    by (simp only: rows_of_def length_map)
  have n1: "mtype nm = ''text''" and n2: "senderId nm = Some ''u1''"
    and n3: "content nm = Some ''hi''"
    using nm by (simp_all add: text_row_def)
  have rows': "mset (map snd (filter (\<lambda>x. roomId (snd x) = ''r1'') (store (sys ?c)))) = {#jm, nm#}"
    using rows by (simp only: rows_of_def)
  have ser: "sys (play w (scene0 w cid t0)
           [JoinArrives t1, QueryRuns, JoinResumes t1, JoinInsertRuns, JoinReturns t1,
            TextArrives t2, TextInsertRuns, TextResumes t2]) =
         run relay_init
           [Connection w cid t0, Data w (Parsed (join_frame ''r1'' ''u1'')) t1 True True,
            Data w (Parsed (text_frame ''hi'')) t2 hist_ok True]"
    by (rule serial_is_run)
  show ?thesis
    by (intro conjI) (rule n1, rule n2, rule n3, rule echo, rule len, rule rows', rule jm, rule ser)
qed

theorem scenario_a_witness:
  "jt (play 0 (scene0 0 ''c0'' 10) back_to_back) =
       JDone (system_message ''r1'' 22 (Some (''u1'' @ joined_text)))
   \<and> ct (play 0 (scene0 0 ''c0'' 10) back_to_back) =
       CDone \<lparr> mtype = ''text'', roomId = ''r1'', senderId = Some ''u1'', timestamp = 21,
               content = Some ''hi'', fileName = None, fileSize = None, duration = None,
               thumbnail = None, mimeType = None \<rparr>
   \<and> map fst (store (sys (play 0 (scene0 0 ''c0'' 10) back_to_back))) = [1, 2]
   \<and> map (mtype \<circ> snd) (store (sys (play 0 (scene0 0 ''c0'' 10) back_to_back))) = [''text'', ''system'']
   \<and> filter is_echo (wire (sys (play 0 (scene0 0 ''c0'' 10) back_to_back)) 0) =
       [Echo \<lparr> mtype = ''text'', roomId = ''r1'', senderId = Some ''u1'', timestamp = 21,
               content = Some ''hi'', fileName = None, fileSize = None, duration = None,
               thumbnail = None, mimeType = None \<rparr>]
   \<and> length (filter (\<lambda>x. roomId (snd x) = ''r1'')
        (store (sys (play 0 (scene0 0 ''c0'' 10) back_to_back)))) = 2"
proof -
  have a: "jt (play 0 (scene0 0 ''c0'' 10) back_to_back) =
       JDone (system_message ''r1'' 22 (Some (''u1'' @ joined_text)))"
    by code_simp
  have b: "ct (play 0 (scene0 0 ''c0'' 10) back_to_back) =
       CDone \<lparr> mtype = ''text'', roomId = ''r1'', senderId = Some ''u1'', timestamp = 21,
               content = Some ''hi'', fileName = None, fileSize = None, duration = None,
               thumbnail = None, mimeType = None \<rparr>"
    by code_simp
  have c: "map fst (store (sys (play 0 (scene0 0 ''c0'' 10) back_to_back))) = [1, 2]"
    by code_simp
  have d: "map (mtype \<circ> snd) (store (sys (play 0 (scene0 0 ''c0'' 10) back_to_back))) =
       [''text'', ''system'']"
    by code_simp
  from scenario_a [OF a b] a b c d show ?thesis by blast
qed

end
